theory Spec2Isabelle
  imports Main "HOL-Library.Sublist" "HOL-Library.Word" "HOL-Library.Signed_Division"
begin

section \<open>Data model\<close>

text \<open>
  The service of \<^verbatim>\<open>usecase/productRequest.go\<close> works on the entities of the packages
  \<^verbatim>\<open>domain\<close>, \<^verbatim>\<open>dto\<close>, \<^verbatim>\<open>types\<close>, \<^verbatim>\<open>exception\<close> and \<^verbatim>\<open>config\<close>. Their declarations are
  not part of the source file; the records below carry the fields the service reads or
  writes, with the nullability the code shows (a field that is dereferenced with \<^verbatim>\<open>*\<close> or
  compared with \<^verbatim>\<open>nil\<close> is an \<open>option\<close>). Go's \<^verbatim>\<open>int\<close>, \<^verbatim>\<open>uint\<close> and \<^verbatim>\<open>int64\<close> are
  64-bit words (a 64-bit platform), so arithmetic wraps as it does in Go.
\<close>

type_synonym go_int = "64 word"
type_synonym go_uint = "64 word"
type_synonym go_time = "64 word"

text \<open>\<^verbatim>\<open>time.Duration\<close> is an \<^verbatim>\<open>int64\<close> count of nanoseconds.\<close>

type_synonym duration = "64 word"

definition Minute :: duration where
  "Minute = 60 * 1000000000"

text \<open>
  Modelled from the spec: \<^verbatim>\<open>types.Role\<close> and its constant \<^verbatim>\<open>types.Admin\<close> are declared outside
  the source file. The spec describes ``a role classifier (at minimum: ordinary user vs.
  administrator)''; every role other than the administrator's is kept by its name.
\<close>

datatype role = Admin | OtherRole string

text \<open>
  Modelled from the spec: \<^verbatim>\<open>types.DeliveryStatus\<close> is declared outside the source file; the
  spec names the value \<^verbatim>\<open>"Purchased"\<close> of \<^verbatim>\<open>types.Purchased\<close> among further statuses.
\<close>

type_synonym delivery_status = string

definition Purchased :: delivery_status where
  "Purchased = ''Purchased''"

record offer =
  o_ID :: go_uint
  o_UserID :: string
  o_ProductRequestID :: go_uint

text \<open>\<^verbatim>\<open>new(domain.Offer)\<close>: the zero value.\<close>

definition new_Offer :: offer where
  "new_Offer = \<lparr>o_ID = 0, o_UserID = [], o_ProductRequestID = 0\<rparr>"

record user =
  u_ID :: string
  u_Role :: role

text \<open>\<^verbatim>\<open>gorm.DeletedAt\<close>: a time and the flag that says whether it is set.\<close>

record deleted_at =
  da_Time :: go_time
  da_Valid :: bool

record product_request =
  pr_ID :: go_uint
  pr_UserID :: "string option"
  pr_Name :: string
  pr_Desc :: string
  pr_Category :: string
  pr_Budget :: int
  pr_Quantity :: go_uint
  pr_Images :: "string list"
  pr_Offers :: "offer list"
  pr_SelectedOfferID :: "go_uint option"
  pr_SelectedOffer :: "offer option"
  pr_DeliveryStatus :: delivery_status
  pr_Transactions :: "go_uint list"
  pr_CreatedAt :: go_time
  pr_UpdatedAt :: go_time
  pr_DeletedAt :: deleted_at

text \<open>\<^verbatim>\<open>dto.UpdateProductRequestDTO\<close> and \<^verbatim>\<open>dto.UpdateProductRequestStatusDTO\<close>.\<close>

record update_dto =
  upd_Name :: string
  upd_Desc :: string
  upd_Budget :: int
  upd_Category :: string
  upd_Quantity :: go_uint
  upd_SelectedOfferID :: go_uint

record status_dto =
  sd_DeliveryStatus :: delivery_status

text \<open>\<^verbatim>\<open>dto.DetailOfProductRequestResponseDTO\<close> and the pagination envelope.\<close>

record detail_dto =
  dto_ID :: go_uint
  dto_Desc :: string
  dto_Category :: string
  dto_Images :: "string list"
  dto_Budget :: int
  dto_Quantity :: go_uint
  dto_UserID :: "string option"
  dto_Offers :: "offer list"
  dto_Transactions :: "go_uint list"
  dto_CreatedAt :: go_time
  dto_UpdatedAt :: go_time
  dto_DeletedAt :: "go_time option"

record pagination_dto =
  pg_Data :: "detail_dto list"
  pg_Page :: go_int
  pg_Limit :: go_int
  pg_TotalRows :: go_int
  pg_TotalPages :: go_int

text \<open>
  \<^verbatim>\<open>multipart.FileHeader\<close> (file name, size and MIME header) and \<^verbatim>\<open>minio.UploadInfo\<close>
  (the bucket and key of the stored object). An \<^verbatim>\<open>io.Reader\<close> is the bytes it yields.
\<close>

type_synonym reader = string

record file_header =
  fh_Filename :: string
  fh_Header :: "(string \<times> string list) list"
  fh_Size :: go_int

record upload_info =
  ui_Bucket :: string
  ui_Key :: string

text \<open>\<^verbatim>\<open>textproto.MIMEHeader.Get\<close>: the first value stored under the key, or the empty string.\<close>

definition Header_Get :: "(string \<times> string list) list \<Rightarrow> string \<Rightarrow> string" where
  "Header_Get h key = (case map_of h key of None \<Rightarrow> [] | Some [] \<Rightarrow> [] | Some (v # _) \<Rightarrow> v)"

record config =
  cfg_S3Expiration :: string
  cfg_S3BucketName :: string

section \<open>Errors and panics\<close>

text \<open>
  The sentinel errors of package \<^verbatim>\<open>exception\<close> that the service returns itself, and any
  other error value a collaborator or a library function hands back, kept by its message.
  A run-time panic is not an error value: it unwinds the call, so it is a different
  kind of failure.
\<close>

datatype error = ErrCouldNotUpdateStatus | ErrPermissionDenied | OtherError string

datatype panic = NilPointerDereference | IndexOutOfRange nat nat | DivideByZero

datatype failure = Returned error | Panicked panic

section \<open>Collaborators, the call record, and sequencing\<close>

text \<open>
  A call to a collaborator is recorded with its arguments and with what it returned. A Go
  function that takes a pointer and fills or alters the object behind it (\<^verbatim>\<open>GetByID\<close>,
  \<^verbatim>\<open>Update\<close>, \<^verbatim>\<open>Create\<close>) returns, in the model, its error together with the object as the
  call left it.
\<close>

datatype event =
    Call_repo_FindByID go_int "error + product_request"
  | Call_repo_FindByUserID string "error + product_request list"
  | Call_repo_FindPaginatedProductRequests go_int go_int "error + product_request list \<times> go_int"
  | Call_repo_Update product_request "error option \<times> product_request"
  | Call_repo_Create product_request "error option \<times> product_request"
  | Call_userRepo_FindByID string "error + user"
  | Call_offerRepo_GetByID offer "error option \<times> offer"
  | Call_minioRepo_UploadFile string reader go_int string string "error + upload_info"
  | Call_minioRepo_GetSignedURL string string duration "error + string"
  | Call_PrNotify product_request "error option"

text \<open>
  The fields of \<^verbatim>\<open>productRequestService\<close>. Each collaborator is an interface whose
  implementation is outside the source file, so it is a parameter: a function of its
  arguments and of the state \<open>'s\<close> of the world behind the interfaces (database, object
  store, mail), returning its result and the new state. A collaborator that reports no
  error returns a usable (non-nil) value. \<^verbatim>\<open>time.ParseDuration\<close> is a pure library function.
\<close>

record 's service =
  repo_FindByID :: "go_int \<Rightarrow> 's \<Rightarrow> (error + product_request) \<times> 's"
  repo_FindByUserID :: "string \<Rightarrow> 's \<Rightarrow> (error + product_request list) \<times> 's"
  repo_FindPaginatedProductRequests ::
    "go_int \<Rightarrow> go_int \<Rightarrow> 's \<Rightarrow> (error + product_request list \<times> go_int) \<times> 's"
  repo_Update :: "product_request \<Rightarrow> 's \<Rightarrow> (error option \<times> product_request) \<times> 's"
  repo_Create :: "product_request \<Rightarrow> 's \<Rightarrow> (error option \<times> product_request) \<times> 's"
  userRepo_FindByID :: "string \<Rightarrow> 's \<Rightarrow> (error + user) \<times> 's"
  offerRepo_GetByID :: "offer \<Rightarrow> 's \<Rightarrow> (error option \<times> offer) \<times> 's"
  minioRepo_UploadFile ::
    "string \<Rightarrow> reader \<Rightarrow> go_int \<Rightarrow> string \<Rightarrow> string \<Rightarrow> 's \<Rightarrow> (error + upload_info) \<times> 's"
  minioRepo_GetSignedURL :: "string \<Rightarrow> string \<Rightarrow> duration \<Rightarrow> 's \<Rightarrow> (error + string) \<times> 's"
  notificationService_PrNotify :: "product_request \<Rightarrow> 's \<Rightarrow> error option \<times> 's"
  time_ParseDuration :: "string \<Rightarrow> error + duration"
  cfg :: config

record 's world =
  w_state :: 's
  w_calls :: "event list"

text \<open>
  A step of the service takes the world and returns a value or a failure, and the world
  after it. \<open>andThen\<close> is Go's statement sequencing with \<^verbatim>\<open>if err != nil { return err }\<close>
  (and a panic) cutting the rest short.
\<close>

type_synonym ('a, 's) prog = "'s world \<Rightarrow> (failure + 'a) \<times> 's world"

definition ret :: "'a \<Rightarrow> ('a, 's) prog" where
  "ret x w = (Inr x, w)"

definition return_err :: "error \<Rightarrow> ('a, 's) prog" where
  "return_err e w = (Inl (Returned e), w)"

definition go_panic :: "panic \<Rightarrow> ('a, 's) prog" where
  "go_panic p w = (Inl (Panicked p), w)"

definition andThen :: "('a, 's) prog \<Rightarrow> ('a \<Rightarrow> ('b, 's) prog) \<Rightarrow> ('b, 's) prog" where
  "andThen m k w = (case m w of (Inl f, w') \<Rightarrow> (Inl f, w') | (Inr x, w') \<Rightarrow> k x w')"

text \<open>A call whose Go signature is \<^verbatim>\<open>(T, error)\<close>, and one that is \<^verbatim>\<open>error\<close> on a pointer argument.\<close>

definition call_val ::
  "('s \<Rightarrow> (error + 'a) \<times> 's) \<Rightarrow> ((error + 'a) \<Rightarrow> event) \<Rightarrow> ('a, 's) prog" where
  "call_val f ev w =
     (case f (w_state w) of
        (r, s') \<Rightarrow>
          (case r of Inl e \<Rightarrow> Inl (Returned e) | Inr x \<Rightarrow> Inr x,
           \<lparr>w_state = s', w_calls = w_calls w @ [ev r]\<rparr>))"

definition call_ptr ::
  "('s \<Rightarrow> (error option \<times> 'a) \<times> 's) \<Rightarrow> ((error option \<times> 'a) \<Rightarrow> event) \<Rightarrow> ('a, 's) prog" where
  "call_ptr f ev w =
     (case f (w_state w) of
        (r, s') \<Rightarrow>
          (case fst r of Some e \<Rightarrow> Inl (Returned e) | None \<Rightarrow> Inr (snd r),
           \<lparr>w_state = s', w_calls = w_calls w @ [ev r]\<rparr>))"

definition call_PrNotify :: "'s service \<Rightarrow> product_request \<Rightarrow> (unit, 's) prog" where
  "call_PrNotify d p w =
     (case notificationService_PrNotify d p (w_state w) of
        (r, s') \<Rightarrow>
          (case r of Some e \<Rightarrow> Inl (Returned e) | None \<Rightarrow> Inr (),
           \<lparr>w_state = s', w_calls = w_calls w @ [Call_PrNotify p r]\<rparr>))"

text \<open>\<^verbatim>\<open>xs[i]\<close> on a slice: a run-time panic outside the range.\<close>

definition index_at :: "'a list \<Rightarrow> nat \<Rightarrow> ('a, 's) prog" where
  "index_at xs i = (if i < length xs then ret (xs ! i) else go_panic (IndexOutOfRange i (length xs)))"

text \<open>\<^verbatim>\<open>*p\<close> on a pointer: a run-time panic on \<^verbatim>\<open>nil\<close>.\<close>

definition deref :: "'a option \<Rightarrow> ('a, 's) prog" where
  "deref p = (case p of None \<Rightarrow> go_panic NilPointerDereference | Some x \<Rightarrow> ret x)"

section \<open>The service\<close>

subsection \<open>UpdateProductRequestStatus\<close>

definition UpdateProductRequestStatus ::
  "'s service \<Rightarrow> status_dto \<Rightarrow> go_int \<Rightarrow> string \<Rightarrow> (unit, 's) prog" where
  "UpdateProductRequestStatus d req prID userID =
     andThen (call_val (repo_FindByID d prID) (Call_repo_FindByID prID)) (\<lambda>productRequest.
     case pr_SelectedOfferID productRequest of
       None \<Rightarrow> return_err ErrCouldNotUpdateStatus
     | Some selectedOfferID \<Rightarrow>
     andThen (call_val (userRepo_FindByID d userID) (Call_userRepo_FindByID userID)) (\<lambda>user.
     let offer0 = new_Offer\<lparr>o_ID := selectedOfferID\<rparr> in
     andThen (call_ptr (offerRepo_GetByID d offer0) (Call_offerRepo_GetByID offer0)) (\<lambda>offer.
     andThen (if u_Role user \<noteq> Admin then
                (if o_UserID offer \<noteq> userID then return_err ErrPermissionDenied
                 else if sd_DeliveryStatus req \<noteq> Purchased then return_err ErrPermissionDenied
                 else ret ())
              else ret ()) (\<lambda>_.
     let productRequest1 = productRequest\<lparr>pr_DeliveryStatus := sd_DeliveryStatus req\<rparr> in
     andThen (call_ptr (repo_Update d productRequest1) (Call_repo_Update productRequest1))
       (\<lambda>productRequest2.
     andThen (call_PrNotify d productRequest2) (\<lambda>_.
     ret ()))))))"

subsection \<open>UpdateProductRequest\<close>

text \<open>The \<^verbatim>\<open>for ... range productRequest.Offers\<close> loop that sets \<^verbatim>\<open>found\<close> and breaks.\<close>

fun offers_found :: "offer list \<Rightarrow> go_uint \<Rightarrow> bool" where
  "offers_found [] offerID = False"
| "offers_found (o1 # os) offerID = (if o_ID o1 = offerID then True else offers_found os offerID)"

definition UpdateProductRequest ::
  "'s service \<Rightarrow> update_dto \<Rightarrow> go_int \<Rightarrow> string \<Rightarrow> (unit, 's) prog" where
  "UpdateProductRequest d req prID userID =
     andThen (call_val (repo_FindByID d prID) (Call_repo_FindByID prID)) (\<lambda>productRequest.
     andThen (deref (pr_UserID productRequest)) (\<lambda>ownerID.
     andThen (if ownerID \<noteq> userID then return_err ErrPermissionDenied else ret ()) (\<lambda>_.
     let offer0 = new_Offer\<lparr>o_ID := upd_SelectedOfferID req\<rparr> in
     andThen (call_ptr (offerRepo_GetByID d offer0) (Call_offerRepo_GetByID offer0)) (\<lambda>offer.
     let found = offers_found (pr_Offers productRequest) (o_ID offer) in
     andThen (if \<not> found then return_err ErrPermissionDenied else ret ()) (\<lambda>_.
     let productRequest1 = productRequest
           \<lparr>pr_Name := upd_Name req,
            pr_Desc := upd_Desc req,
            pr_Budget := upd_Budget req,
            pr_Category := upd_Category req,
            pr_Quantity := upd_Quantity req,
            pr_SelectedOfferID := Some (upd_SelectedOfferID req),
            pr_SelectedOffer := Some offer\<rparr> in
     andThen (call_ptr (repo_Update d productRequest1) (Call_repo_Update productRequest1)) (\<lambda>_.
     ret ()))))))"

subsection \<open>CreateProductRequest\<close>

text \<open>
  The upload loop: \<^verbatim>\<open>readers[i]\<close> is read by index, so a reader list shorter than the file
  list panics at the first file without a reader.
\<close>

fun upload_loop ::
  "'s service \<Rightarrow> file_header list \<Rightarrow> reader list \<Rightarrow> nat \<Rightarrow> upload_info list \<Rightarrow>
   (upload_info list, 's) prog" where
  "upload_loop d [] readers i uploadInfos = ret uploadInfos"
| "upload_loop d (file # files) readers i uploadInfos =
     andThen (index_at readers i) (\<lambda>reader.
     andThen (call_val
        (minioRepo_UploadFile d (fh_Filename file) reader (fh_Size file)
           (Header_Get (fh_Header file) ''Content-Type'') ''product-request-images'')
        (Call_minioRepo_UploadFile (fh_Filename file) reader (fh_Size file)
           (Header_Get (fh_Header file) ''Content-Type'') ''product-request-images''))
       (\<lambda>uploadInfo.
     upload_loop d files readers (Suc i) (uploadInfos @ [uploadInfo])))"

text \<open>The second loop, which appends \<^verbatim>\<open>Bucket + "/" + Key\<close> for each upload.\<close>

fun uris_loop :: "upload_info list \<Rightarrow> string list \<Rightarrow> string list" where
  "uris_loop [] uris = uris"
| "uris_loop (uploadInfo # rest) uris =
     uris_loop rest (uris @ [ui_Bucket uploadInfo @ ''/'' @ ui_Key uploadInfo])"

text \<open>
  The caller's request is altered through the pointer; the model returns the request as
  \<^verbatim>\<open>Create\<close> left it.
\<close>

definition CreateProductRequest ::
  "'s service \<Rightarrow> product_request \<Rightarrow> file_header list \<Rightarrow> reader list \<Rightarrow>
   (product_request, 's) prog" where
  "CreateProductRequest d productRequest files readers =
     andThen (upload_loop d files readers 0 []) (\<lambda>uploadInfos.
     let uris = uris_loop uploadInfos [];
         productRequest1 = productRequest\<lparr>pr_Images := uris\<rparr> in
     andThen (call_ptr (repo_Create d productRequest1) (Call_repo_Create productRequest1))
       (\<lambda>productRequest2.
     ret productRequest2))"

subsection \<open>getUrls\<close>

text \<open>
  \<^verbatim>\<open>strings.Index\<close> (the position of the first occurrence, if any) and \<^verbatim>\<open>strings.SplitN\<close>
  of the Go standard library, for a non-empty separator and a count \<open>n \<ge> 0\<close>: the only
  call passes the literal \<^verbatim>\<open>"hewpao-s3/"\<close> and 2. \<open>genSplit_loop\<close> is the loop of
  \<^verbatim>\<open>genSplit\<close> that cuts at most \<open>n - 1\<close> times.
\<close>

fun Index :: "string \<Rightarrow> string \<Rightarrow> nat option" where
  "Index [] substr = (if substr = [] then Some 0 else None)"
| "Index (c # cs) substr =
     (if prefix substr (c # cs) then Some 0 else map_option Suc (Index cs substr))"

fun genSplit_loop :: "string \<Rightarrow> string \<Rightarrow> nat \<Rightarrow> string list" where
  "genSplit_loop s sep 0 = [s]"
| "genSplit_loop s sep (Suc k) =
     (case Index s sep of
        None \<Rightarrow> [s]
      | Some m \<Rightarrow> take m s # genSplit_loop (drop (m + length sep) s) sep k)"

definition SplitN :: "string \<Rightarrow> string \<Rightarrow> nat \<Rightarrow> string list" where
  "SplitN s sep n = (if n = 0 then [] else genSplit_loop s sep (min n (length s + 1) - 1))"

fun getUrls_loop ::
  "'s service \<Rightarrow> duration \<Rightarrow> string list \<Rightarrow> string list \<Rightarrow> (string list, 's) prog" where
  "getUrls_loop d duration [] urls = ret urls"
| "getUrls_loop d duration (img # imgs) urls =
     (let path = SplitN img ''hewpao-s3/'' 2 in
      andThen (index_at path 1) (\<lambda>path1.
      andThen (call_val
         (minioRepo_GetSignedURL d (cfg_S3BucketName (cfg d)) path1 duration)
         (Call_minioRepo_GetSignedURL (cfg_S3BucketName (cfg d)) path1 duration)) (\<lambda>url.
      getUrls_loop d duration imgs (urls @ [url]))))"

definition getUrls :: "'s service \<Rightarrow> product_request \<Rightarrow> (string list, 's) prog" where
  "getUrls d productRequest =
     (case time_ParseDuration d (cfg_S3Expiration (cfg d)) of
        Inl err \<Rightarrow> return_err err
      | Inr duration \<Rightarrow> getUrls_loop d duration (pr_Images productRequest) [])"

subsection \<open>GetDetailByID, GetBuyerProductRequestsByUserID, GetPaginatedProductRequests\<close>

definition GetDetailByID :: "'s service \<Rightarrow> go_int \<Rightarrow> (detail_dto, 's) prog" where
  "GetDetailByID d id' =
     andThen (call_val (repo_FindByID d id') (Call_repo_FindByID id')) (\<lambda>productRequest.
     andThen (getUrls d productRequest) (\<lambda>urls.
     ret \<lparr>dto_ID = pr_ID productRequest,
          dto_Desc = pr_Desc productRequest,
          dto_Category = pr_Category productRequest,
          dto_Images = urls,
          dto_Budget = pr_Budget productRequest,
          dto_Quantity = pr_Quantity productRequest,
          dto_UserID = pr_UserID productRequest,
          dto_Offers = pr_Offers productRequest,
          dto_Transactions = pr_Transactions productRequest,
          dto_CreatedAt = pr_CreatedAt productRequest,
          dto_UpdatedAt = pr_UpdatedAt productRequest,
          dto_DeletedAt = Some (da_Time (pr_DeletedAt productRequest))\<rparr>))"

text \<open>
  The loop shared, statement for statement, by the two listing operations: resolve the
  URLs of each request and append its projection (which leaves \<^verbatim>\<open>Transactions\<close> at its
  zero value).
\<close>

fun detail_loop ::
  "'s service \<Rightarrow> product_request list \<Rightarrow> detail_dto list \<Rightarrow> (detail_dto list, 's) prog" where
  "detail_loop d [] res = ret res"
| "detail_loop d (productRequest # rest) res =
     andThen (getUrls d productRequest) (\<lambda>urls.
     detail_loop d rest (res @
       [\<lparr>dto_ID = pr_ID productRequest,
         dto_Desc = pr_Desc productRequest,
         dto_Category = pr_Category productRequest,
         dto_Images = urls,
         dto_Budget = pr_Budget productRequest,
         dto_Quantity = pr_Quantity productRequest,
         dto_UserID = pr_UserID productRequest,
         dto_Offers = pr_Offers productRequest,
         dto_Transactions = [],
         dto_CreatedAt = pr_CreatedAt productRequest,
         dto_UpdatedAt = pr_UpdatedAt productRequest,
         dto_DeletedAt = Some (da_Time (pr_DeletedAt productRequest))\<rparr>]))"

definition GetBuyerProductRequestsByUserID ::
  "'s service \<Rightarrow> string \<Rightarrow> (detail_dto list, 's) prog" where
  "GetBuyerProductRequestsByUserID d id' =
     andThen (call_val (repo_FindByUserID d id') (Call_repo_FindByUserID id')) (\<lambda>productRequests.
     detail_loop d productRequests [])"

text \<open>
  Go's \<^verbatim>\<open>/\<close> on \<^verbatim>\<open>int\<close>: a run-time panic on a zero divisor, otherwise the quotient
  truncated towards zero, in 64 bits.
\<close>

definition go_div :: "go_int \<Rightarrow> go_int \<Rightarrow> (go_int, 's) prog" where
  "go_div a b = (if b = 0 then go_panic DivideByZero else ret (word_of_int (sint a sdiv sint b)))"

definition GetPaginatedProductRequests ::
  "'s service \<Rightarrow> go_int \<Rightarrow> go_int \<Rightarrow> (pagination_dto, 's) prog" where
  "GetPaginatedProductRequests d page limit =
     andThen (call_val (repo_FindPaginatedProductRequests d page limit)
                (Call_repo_FindPaginatedProductRequests page limit)) (\<lambda>found.
     let productRequests = fst found; totalRows = snd found in
     andThen (go_div (totalRows + limit - 1) limit) (\<lambda>totalPages.
     andThen (detail_loop d productRequests []) (\<lambda>dest.
     ret \<lparr>pg_Data = dest,
          pg_Page = page,
          pg_Limit = limit,
          pg_TotalRows = totalRows,
          pg_TotalPages = totalPages\<rparr>)))"

section \<open>In-memory collaborators\<close>

text \<open>
  A small implementation of the five interfaces over lists held in memory, of the kind a
  unit test of the service would inject. The theorems below hold for every
  implementation; this one instantiates them on concrete data.
\<close>

record mem =
  m_requests :: "product_request list"
  m_users :: "user list"
  m_offers :: "offer list"
  m_notified :: "product_request list"
  m_notify_error :: "error option"

definition mem_FindByID :: "go_int \<Rightarrow> mem \<Rightarrow> (error + product_request) \<times> mem" where
  "mem_FindByID i s =
     (case find (\<lambda>p. pr_ID p = i) (m_requests s) of
        None \<Rightarrow> (Inl (OtherError ''record not found''), s)
      | Some p \<Rightarrow> (Inr p, s))"

definition mem_FindByUserID :: "string \<Rightarrow> mem \<Rightarrow> (error + product_request list) \<times> mem" where
  "mem_FindByUserID uid s = (Inr (filter (\<lambda>p. pr_UserID p = Some uid) (m_requests s)), s)"

definition mem_FindPaginated ::
  "go_int \<Rightarrow> go_int \<Rightarrow> mem \<Rightarrow> (error + product_request list \<times> go_int) \<times> mem" where
  "mem_FindPaginated page limit s =
     (Inr (take (unat limit) (drop (unat ((page - 1) * limit)) (m_requests s)),
           word_of_nat (length (m_requests s))), s)"

definition mem_Update :: "product_request \<Rightarrow> mem \<Rightarrow> (error option \<times> product_request) \<times> mem" where
  "mem_Update p s =
     ((None, p), s\<lparr>m_requests := map (\<lambda>q. if pr_ID q = pr_ID p then p else q) (m_requests s)\<rparr>)"

definition mem_Create :: "product_request \<Rightarrow> mem \<Rightarrow> (error option \<times> product_request) \<times> mem" where
  "mem_Create p s = ((None, p), s\<lparr>m_requests := m_requests s @ [p]\<rparr>)"

definition mem_User_FindByID :: "string \<Rightarrow> mem \<Rightarrow> (error + user) \<times> mem" where
  "mem_User_FindByID uid s =
     (case find (\<lambda>u. u_ID u = uid) (m_users s) of
        None \<Rightarrow> (Inl (OtherError ''record not found''), s)
      | Some u \<Rightarrow> (Inr u, s))"

definition mem_Offer_GetByID :: "offer \<Rightarrow> mem \<Rightarrow> (error option \<times> offer) \<times> mem" where
  "mem_Offer_GetByID o1 s =
     (case find (\<lambda>x. o_ID x = o_ID o1) (m_offers s) of
        None \<Rightarrow> ((Some (OtherError ''record not found''), o1), s)
      | Some x \<Rightarrow> ((None, x), s))"

definition mem_UploadFile ::
  "string \<Rightarrow> reader \<Rightarrow> go_int \<Rightarrow> string \<Rightarrow> string \<Rightarrow> mem \<Rightarrow> (error + upload_info) \<times> mem" where
  "mem_UploadFile filename rd sz contentType folder s =
     (if rd = [] then Inl (OtherError ''empty upload'')
      else Inr \<lparr>ui_Bucket = ''hewpao-s3'', ui_Key = folder @ ''/'' @ filename\<rparr>, s)"

definition mem_GetSignedURL ::
  "string \<Rightarrow> string \<Rightarrow> duration \<Rightarrow> mem \<Rightarrow> (error + string) \<times> mem" where
  "mem_GetSignedURL bucket path ttl s =
     (if path = [] then Inl (OtherError ''no such key'')
      else Inr (''https://s3.test/'' @ bucket @ ''/'' @ path), s)"

definition mem_PrNotify :: "product_request \<Rightarrow> mem \<Rightarrow> error option \<times> mem" where
  "mem_PrNotify p s = (m_notify_error s, s\<lparr>m_notified := m_notified s @ [p]\<rparr>)"

text \<open>What \<^verbatim>\<open>time.ParseDuration\<close> returns on \<^verbatim>\<open>"15m"\<close>, and an error on any other text.\<close>

definition parse_15m :: "string \<Rightarrow> error + duration" where
  "parse_15m s = (if s = ''15m'' then Inr (15 * Minute) else Inl (OtherError ''time: invalid duration''))"

definition mem_service :: "config \<Rightarrow> mem service" where
  "mem_service c =
     \<lparr>repo_FindByID = mem_FindByID,
      repo_FindByUserID = mem_FindByUserID,
      repo_FindPaginatedProductRequests = mem_FindPaginated,
      repo_Update = mem_Update,
      repo_Create = mem_Create,
      userRepo_FindByID = mem_User_FindByID,
      offerRepo_GetByID = mem_Offer_GetByID,
      minioRepo_UploadFile = mem_UploadFile,
      minioRepo_GetSignedURL = mem_GetSignedURL,
      notificationService_PrNotify = mem_PrNotify,
      time_ParseDuration = parse_15m,
      cfg = c\<rparr>"

definition cfg0 :: config where
  "cfg0 = \<lparr>cfg_S3Expiration = ''15m'', cfg_S3BucketName = ''hewpao-s3''\<rparr>"

text \<open>Two offers of travellers \<open>t1\<close> and \<open>t2\<close>, and a request of buyer \<open>b1\<close>.\<close>

definition offer1 :: offer where
  "offer1 = \<lparr>o_ID = 1, o_UserID = ''t1'', o_ProductRequestID = 7\<rparr>"

definition offer2 :: offer where
  "offer2 = \<lparr>o_ID = 2, o_UserID = ''t2'', o_ProductRequestID = 8\<rparr>"

definition request7 :: product_request where
  "request7 =
     \<lparr>pr_ID = 7, pr_UserID = Some ''b1'', pr_Name = ''tea'', pr_Desc = ''green tea'',
      pr_Category = ''food'', pr_Budget = 100, pr_Quantity = 1,
      pr_Images = [''hewpao-s3/images/a.png''], pr_Offers = [offer1],
      pr_SelectedOfferID = None, pr_SelectedOffer = None, pr_DeliveryStatus = ''Pending'',
      pr_Transactions = [], pr_CreatedAt = 0, pr_UpdatedAt = 0,
      pr_DeletedAt = \<lparr>da_Time = 0, da_Valid = False\<rparr>\<rparr>"

definition users0 :: "user list" where
  "users0 =
     [\<lparr>u_ID = ''b1'', u_Role = OtherRole ''User''\<rparr>,
      \<lparr>u_ID = ''t1'', u_Role = OtherRole ''User''\<rparr>,
      \<lparr>u_ID = ''t2'', u_Role = OtherRole ''User''\<rparr>,
      \<lparr>u_ID = ''root'', u_Role = Admin\<rparr>]"

definition mem_of :: "product_request list \<Rightarrow> error option \<Rightarrow> mem world" where
  "mem_of rs notify_error =
     \<lparr>w_state = \<lparr>m_requests = rs, m_users = users0, m_offers = [offer1, offer2],
                 m_notified = [], m_notify_error = notify_error\<rparr>,
      w_calls = []\<rparr>"

text \<open>The same request once its owner has selected the offer of traveller \<open>t1\<close>.\<close>

definition request7_selected :: product_request where
  "request7_selected = request7\<lparr>pr_SelectedOfferID := Some 1, pr_SelectedOffer := Some offer1\<rparr>"

text \<open>Two requests without images, and a request whose second image lacks the separator.\<close>

definition request7_plain :: product_request where
  "request7_plain = request7\<lparr>pr_Images := []\<rparr>"

definition request8_plain :: product_request where
  "request8_plain = request7\<lparr>pr_ID := 8, pr_Images := []\<rparr>"

definition request9 :: product_request where
  "request9 = request7\<lparr>pr_ID := 9, pr_Images := [''hewpao-s3/images/a.png'', ''images/b.png'']\<rparr>"

text \<open>Two image files of a multipart form.\<close>

definition file_a :: file_header where
  "file_a = \<lparr>fh_Filename = ''a.png'', fh_Header = [(''Content-Type'', [''image/png''])], fh_Size = 3\<rparr>"

definition file_b :: file_header where
  "file_b = \<lparr>fh_Filename = ''b.png'', fh_Header = [], fh_Size = 3\<rparr>"

text \<open>A configuration whose expiration is not a duration.\<close>

definition cfg_unparsed :: config where
  "cfg_unparsed = \<lparr>cfg_S3Expiration = ''soon'', cfg_S3BucketName = ''hewpao-s3''\<rparr>"

text \<open>A request whose first image lacks the separator and whose second image has it.\<close>

definition request10 :: product_request where
  "request10 = request7\<lparr>pr_ID := 10, pr_Images := [''images/b.png'', ''hewpao-s3/images/a.png'']\<rparr>"

section \<open>Vocabulary of the statements\<close>

text \<open>
  \<open>first_split sep s before after\<close>: \<open>before\<close> and \<open>after\<close> are what stands before and
  after the first occurrence of \<open>sep\<close> in \<open>s\<close>. (That \<open>s\<close> contains \<open>sep\<close> at all is
  \<open>sublist sep s\<close>.)
\<close>

definition first_split :: "string \<Rightarrow> string \<Rightarrow> string \<Rightarrow> string \<Rightarrow> bool" where
  "first_split sep s before after \<longleftrightarrow>
     s = before @ sep @ after \<and> (\<forall>b a. s = b @ sep @ a \<longrightarrow> length before \<le> length b)"

text \<open>The calls recorded between two worlds of a run.\<close>

definition calls_since :: "'s world \<Rightarrow> 's world \<Rightarrow> event list" where
  "calls_since w w' = drop (length (w_calls w)) (w_calls w')"

text \<open>Whether one of the calls is a signing that returned an error.\<close>

fun is_signer_error :: "event \<Rightarrow> bool" where
  "is_signer_error (Call_minioRepo_GetSignedURL bucket path ttl (Inl e)) = True"
| "is_signer_error ev = False"

text \<open>Whether a call is a store \<^verbatim>\<open>Create\<close>, and whether it is an upload that returned the error.\<close>

fun is_Create :: "event \<Rightarrow> bool" where
  "is_Create (Call_repo_Create p r) = True"
| "is_Create ev = False"

fun is_failed_upload :: "error \<Rightarrow> event \<Rightarrow> bool" where
  "is_failed_upload err (Call_minioRepo_UploadFile filename rd sz contentType folder (Inl e)) = (e = err)"
| "is_failed_upload err ev = False"

text \<open>
  \<open>signed_as d dur imgs evs urls\<close>: the calls \<open>evs\<close> are one signing per image of
  \<open>imgs\<close>, in order, each with the configured bucket name, the text after the first
  occurrence of the separator in the image and the duration \<open>dur\<close>, and \<open>urls\<close> are the
  URLs the signer returned, in the same order.
\<close>

definition signed_as :: "'s service \<Rightarrow> duration \<Rightarrow> string list \<Rightarrow> event list \<Rightarrow> string list \<Rightarrow> bool" where
  "signed_as d dur imgs evs urls \<longleftrightarrow>
     length evs = length imgs \<and> length urls = length imgs \<and>
     (\<forall>i<length imgs. \<exists>before after.
        first_split ''hewpao-s3/'' (imgs ! i) before after \<and>
        evs ! i = Call_minioRepo_GetSignedURL (cfg_S3BucketName (cfg d)) after dur (Inr (urls ! i)))"

section \<open>Running the steps\<close>

lemma status_run:
  fixes d :: "'s service"
  assumes find: "repo_FindByID d prID (w_state w) = (Inr pr, s1)"
    and sel: "pr_SelectedOfferID pr = Some sel"
    and usr: "userRepo_FindByID d userID s1 = (Inr user, s2)"
    and off: "offerRepo_GetByID d (new_Offer\<lparr>o_ID := sel\<rparr>) s2 = ((None, offer), s3)"
    and upd: "repo_Update d (pr\<lparr>pr_DeliveryStatus := sd_DeliveryStatus req\<rparr>) s3 = ((uerr, pr2), s4)"
    and ntf: "notificationService_PrNotify d pr2 s4 = (nerr, s5)"
  shows "UpdateProductRequestStatus d req prID userID w =
    (if u_Role user \<noteq> Admin \<and> (o_UserID offer \<noteq> userID \<or> sd_DeliveryStatus req \<noteq> Purchased)
     then (Inl (Returned ErrPermissionDenied),
           \<lparr>w_state = s3,
            w_calls = w_calls w @
              [Call_repo_FindByID prID (Inr pr),
               Call_userRepo_FindByID userID (Inr user),
               Call_offerRepo_GetByID (new_Offer\<lparr>o_ID := sel\<rparr>) (None, offer)]\<rparr>)
     else (case uerr of
             Some e \<Rightarrow>
               (Inl (Returned e),
                \<lparr>w_state = s4,
                 w_calls = w_calls w @
                   [Call_repo_FindByID prID (Inr pr),
                    Call_userRepo_FindByID userID (Inr user),
                    Call_offerRepo_GetByID (new_Offer\<lparr>o_ID := sel\<rparr>) (None, offer),
                    Call_repo_Update (pr\<lparr>pr_DeliveryStatus := sd_DeliveryStatus req\<rparr>) (uerr, pr2)]\<rparr>)
           | None \<Rightarrow>
               (case nerr of Some e \<Rightarrow> Inl (Returned e) | None \<Rightarrow> Inr (),
                \<lparr>w_state = s5,
                 w_calls = w_calls w @
                   [Call_repo_FindByID prID (Inr pr),
                    Call_userRepo_FindByID userID (Inr user),
                    Call_offerRepo_GetByID (new_Offer\<lparr>o_ID := sel\<rparr>) (None, offer),
                    Call_repo_Update (pr\<lparr>pr_DeliveryStatus := sd_DeliveryStatus req\<rparr>) (uerr, pr2),
                    Call_PrNotify pr2 nerr]\<rparr>)))"
proof (cases "u_Role user \<noteq> Admin \<and> (o_UserID offer \<noteq> userID \<or> sd_DeliveryStatus req \<noteq> Purchased)")
  case True
  then show ?thesis
    using find sel usr off
    by (auto simp add: UpdateProductRequestStatus_def andThen_def call_val_def call_ptr_def
        return_err_def Let_def)
next
  case False
  then have guard:
    "(if u_Role user \<noteq> Admin then
        (if o_UserID offer \<noteq> userID then return_err ErrPermissionDenied
         else if sd_DeliveryStatus req \<noteq> Purchased then return_err ErrPermissionDenied
         else ret ())
      else ret ()) = (ret () :: (unit, 's) prog)"
    by auto
  have pass: "\<not> (u_Role user \<noteq> Admin \<and> (o_UserID offer \<noteq> userID \<or> sd_DeliveryStatus req \<noteq> Purchased))"
    by (rule False)
  show ?thesis
    unfolding if_not_P [OF pass]
    using find sel usr off upd ntf
    by (simp add: UpdateProductRequestStatus_def guard andThen_def call_val_def call_ptr_def
        call_PrNotify_def ret_def Let_def split: option.splits)
qed

text \<open>Facts about the in-memory collaborators.\<close>

lemma mem_service_sel:
  "repo_FindByID (mem_service c) = mem_FindByID"
  "repo_FindByUserID (mem_service c) = mem_FindByUserID"
  "repo_FindPaginatedProductRequests (mem_service c) = mem_FindPaginated"
  "repo_Update (mem_service c) = mem_Update"
  "repo_Create (mem_service c) = mem_Create"
  "userRepo_FindByID (mem_service c) = mem_User_FindByID"
  "offerRepo_GetByID (mem_service c) = mem_Offer_GetByID"
  "minioRepo_UploadFile (mem_service c) = mem_UploadFile"
  "minioRepo_GetSignedURL (mem_service c) = mem_GetSignedURL"
  "notificationService_PrNotify (mem_service c) = mem_PrNotify"
  "time_ParseDuration (mem_service c) = parse_15m"
  "cfg (mem_service c) = c"
  by (simp_all add: mem_service_def)

lemma mem_find7:
  "mem_FindByID 7 (w_state (mem_of [request7_selected] ne))
     = (Inr request7_selected, w_state (mem_of [request7_selected] ne))"
  by (simp add: mem_FindByID_def mem_of_def request7_selected_def request7_def)

lemma mem_user_root:
  "mem_User_FindByID ''root'' (w_state (mem_of rs ne))
     = (Inr \<lparr>u_ID = ''root'', u_Role = Admin\<rparr>, w_state (mem_of rs ne))"
  by (simp add: mem_User_FindByID_def mem_of_def users0_def)

lemma mem_user_t1:
  "mem_User_FindByID ''t1'' (w_state (mem_of rs ne))
     = (Inr \<lparr>u_ID = ''t1'', u_Role = OtherRole ''User''\<rparr>, w_state (mem_of rs ne))"
  by (simp add: mem_User_FindByID_def mem_of_def users0_def)

lemma mem_user_t2:
  "mem_User_FindByID ''t2'' (w_state (mem_of rs ne))
     = (Inr \<lparr>u_ID = ''t2'', u_Role = OtherRole ''User''\<rparr>, w_state (mem_of rs ne))"
  by (simp add: mem_User_FindByID_def mem_of_def users0_def)

lemma mem_offer_1:
  "mem_Offer_GetByID (new_Offer\<lparr>o_ID := 1\<rparr>) (w_state (mem_of rs ne))
     = ((None, offer1), w_state (mem_of rs ne))"
  by (simp add: mem_Offer_GetByID_def mem_of_def new_Offer_def offer1_def)

lemma mem_update_eq:
  "mem_Update p s = ((None, p), snd (mem_Update p s))"
  by (simp add: mem_Update_def)

lemma mem_notify_eq:
  "mem_PrNotify p s = (m_notify_error s, snd (mem_PrNotify p s))"
  by (simp add: mem_PrNotify_def)

lemma sel7: "pr_SelectedOfferID request7_selected = Some 1"
  by (simp add: request7_selected_def)

lemma mem_find7_plain:
  "mem_FindByID 7 (w_state (mem_of [request7] ne)) = (Inr request7, w_state (mem_of [request7] ne))"
  by (simp add: mem_FindByID_def mem_of_def request7_def)

lemma mem_offer_2:
  "mem_Offer_GetByID (new_Offer\<lparr>o_ID := 2\<rparr>) (w_state (mem_of rs ne))
     = ((None, offer2), w_state (mem_of rs ne))"
  by (simp add: mem_Offer_GetByID_def mem_of_def new_Offer_def offer1_def offer2_def)

section \<open>UpdateProductRequestStatus\<close>

text \<open>
  Claim C1. Let the request be found with a selected offer, the caller's user record be
  found (which resolves the role) and the selected offer be loaded. An administrator is
  accepted with any target status; a caller who is no administrator and not the owning
  user of the selected offer gets \<open>ErrPermissionDenied\<close>; a caller who is no
  administrator and owns the selected offer is accepted with the target \<open>Purchased\<close> and
  gets \<open>ErrPermissionDenied\<close> with any other target. Accepted means that the request
  with the target status goes to the store's \<^verbatim>\<open>Update\<close> and then to the notifier, and the
  operation returns no error when neither of them reports one. Denied means that nothing
  is called after the three lookups.
\<close>

theorem status_authorization:
  fixes d :: "'s service" and calls3 :: "event list"
    and denied accepted :: "(failure + unit) \<times> 's world"
  assumes find: "repo_FindByID d prID (w_state w) = (Inr pr, s1)"
    and sel: "pr_SelectedOfferID pr = Some sel"
    and usr: "userRepo_FindByID d userID s1 = (Inr user, s2)"
    and off: "offerRepo_GetByID d (new_Offer\<lparr>o_ID := sel\<rparr>) s2 = ((None, offer), s3)"
    and upd: "repo_Update d (pr\<lparr>pr_DeliveryStatus := sd_DeliveryStatus req\<rparr>) s3 = ((uerr, pr2), s4)"
    and ntf: "notificationService_PrNotify d pr2 s4 = (nerr, s5)"
  defines "calls3 \<equiv> w_calls w @
              [Call_repo_FindByID prID (Inr pr),
               Call_userRepo_FindByID userID (Inr user),
               Call_offerRepo_GetByID (new_Offer\<lparr>o_ID := sel\<rparr>) (None, offer)]"
  defines "denied \<equiv> (Inl (Returned ErrPermissionDenied), \<lparr>w_state = s3, w_calls = calls3\<rparr>)"
  defines "accepted \<equiv>
     (case uerr of
        Some e \<Rightarrow>
          (Inl (Returned e),
           \<lparr>w_state = s4,
            w_calls = calls3 @
              [Call_repo_Update (pr\<lparr>pr_DeliveryStatus := sd_DeliveryStatus req\<rparr>) (uerr, pr2)]\<rparr>)
      | None \<Rightarrow>
          (case nerr of Some e \<Rightarrow> Inl (Returned e) | None \<Rightarrow> Inr (),
           \<lparr>w_state = s5,
            w_calls = calls3 @
              [Call_repo_Update (pr\<lparr>pr_DeliveryStatus := sd_DeliveryStatus req\<rparr>) (uerr, pr2),
               Call_PrNotify pr2 nerr]\<rparr>))"
  shows "(u_Role user = Admin \<longrightarrow>
            UpdateProductRequestStatus d req prID userID w = accepted) \<and>
         (u_Role user \<noteq> Admin \<and> o_UserID offer \<noteq> userID \<longrightarrow>
            UpdateProductRequestStatus d req prID userID w = denied) \<and>
         (u_Role user \<noteq> Admin \<and> o_UserID offer = userID \<and> sd_DeliveryStatus req = Purchased \<longrightarrow>
            UpdateProductRequestStatus d req prID userID w = accepted) \<and>
         (u_Role user \<noteq> Admin \<and> o_UserID offer = userID \<and> sd_DeliveryStatus req \<noteq> Purchased \<longrightarrow>
            UpdateProductRequestStatus d req prID userID w = denied)"
  unfolding calls3_def denied_def accepted_def
  by (simp add: status_run [OF find sel usr off upd ntf] split: option.splits)

theorem status_authorization_witness:
  "fst (UpdateProductRequestStatus (mem_service cfg0) \<lparr>sd_DeliveryStatus = ''Delivered''\<rparr> 7 ''root''
          (mem_of [request7_selected] None)) = Inr () \<and>
   fst (UpdateProductRequestStatus (mem_service cfg0) \<lparr>sd_DeliveryStatus = Purchased\<rparr> 7 ''t2''
          (mem_of [request7_selected] None)) = Inl (Returned ErrPermissionDenied) \<and>
   fst (UpdateProductRequestStatus (mem_service cfg0) \<lparr>sd_DeliveryStatus = Purchased\<rparr> 7 ''t1''
          (mem_of [request7_selected] None)) = Inr () \<and>
   fst (UpdateProductRequestStatus (mem_service cfg0) \<lparr>sd_DeliveryStatus = ''Delivered''\<rparr> 7 ''t1''
          (mem_of [request7_selected] None)) = Inl (Returned ErrPermissionDenied)"
proof -
  let ?d = "mem_service cfg0"
  let ?w = "mem_of [request7_selected] None"
  have find: "repo_FindByID ?d 7 (w_state ?w) = (Inr request7_selected, w_state ?w)"
    by (simp add: mem_service_sel mem_find7)
  have off: "offerRepo_GetByID ?d (new_Offer\<lparr>o_ID := 1\<rparr>) (w_state ?w) = ((None, offer1), w_state ?w)"
    by (simp add: mem_service_sel mem_offer_1)
  have upd: "repo_Update ?d p (w_state ?w) = ((None, p), snd (mem_Update p (w_state ?w)))" for p
    by (simp add: mem_service_sel mem_update_eq [symmetric])
  have ntf: "notificationService_PrNotify ?d p s = (m_notify_error s, snd (mem_PrNotify p s))" for p s
    by (simp add: mem_service_sel mem_notify_eq [symmetric])
  have ne: "m_notify_error (snd (mem_Update p (w_state ?w))) = None" for p
    by (simp add: mem_Update_def mem_of_def)
  have root: "userRepo_FindByID ?d ''root'' (w_state ?w)
                = (Inr \<lparr>u_ID = ''root'', u_Role = Admin\<rparr>, w_state ?w)"
    by (simp add: mem_service_sel mem_user_root)
  have t1: "userRepo_FindByID ?d ''t1'' (w_state ?w)
                = (Inr \<lparr>u_ID = ''t1'', u_Role = OtherRole ''User''\<rparr>, w_state ?w)"
    by (simp add: mem_service_sel mem_user_t1)
  have t2: "userRepo_FindByID ?d ''t2'' (w_state ?w)
                = (Inr \<lparr>u_ID = ''t2'', u_Role = OtherRole ''User''\<rparr>, w_state ?w)"
    by (simp add: mem_service_sel mem_user_t2)
  have a: "fst (UpdateProductRequestStatus ?d \<lparr>sd_DeliveryStatus = ''Delivered''\<rparr> 7 ''root'' ?w) = Inr ()"
    using status_authorization [OF find sel7 root off upd ntf, of "\<lparr>sd_DeliveryStatus = ''Delivered''\<rparr>"]
    by (simp add: ne)
  have b: "fst (UpdateProductRequestStatus ?d \<lparr>sd_DeliveryStatus = Purchased\<rparr> 7 ''t2'' ?w)
             = Inl (Returned ErrPermissionDenied)"
    using status_authorization [OF find sel7 t2 off upd ntf, of "\<lparr>sd_DeliveryStatus = Purchased\<rparr>"]
    by (simp add: offer1_def)
  have c: "fst (UpdateProductRequestStatus ?d \<lparr>sd_DeliveryStatus = Purchased\<rparr> 7 ''t1'' ?w) = Inr ()"
    using status_authorization [OF find sel7 t1 off upd ntf, of "\<lparr>sd_DeliveryStatus = Purchased\<rparr>"]
    by (simp add: ne offer1_def)
  have e: "fst (UpdateProductRequestStatus ?d \<lparr>sd_DeliveryStatus = ''Delivered''\<rparr> 7 ''t1'' ?w)
             = Inl (Returned ErrPermissionDenied)"
    using status_authorization [OF find sel7 t1 off upd ntf, of "\<lparr>sd_DeliveryStatus = ''Delivered''\<rparr>"]
    by (simp add: offer1_def Purchased_def)
  show ?thesis using a b c e by simp
qed

text \<open>
  Claim C2. When the request is found and no offer is selected, the operation returns
  \<open>ErrCouldNotUpdateStatus\<close> whoever the caller is, and the only call made is the
  request lookup: no user lookup, no offer lookup, no \<^verbatim>\<open>Update\<close>, no notification.
\<close>

theorem status_requires_selected_offer:
  assumes "repo_FindByID d prID (w_state w) = (Inr productRequest, s1)"
    and "pr_SelectedOfferID productRequest = None"
  shows "UpdateProductRequestStatus d req prID userID w =
           (Inl (Returned ErrCouldNotUpdateStatus),
            \<lparr>w_state = s1, w_calls = w_calls w @ [Call_repo_FindByID prID (Inr productRequest)]\<rparr>)"
  using assms
  by (simp add: UpdateProductRequestStatus_def andThen_def call_val_def return_err_def)

theorem status_requires_selected_offer_witness:
  "repo_FindByID (mem_service cfg0) 7 (w_state (mem_of [request7] None))
     = (Inr request7, w_state (mem_of [request7] None)) \<and>
   pr_SelectedOfferID request7 = None \<and>
   UpdateProductRequestStatus (mem_service cfg0) \<lparr>sd_DeliveryStatus = Purchased\<rparr> 7 ''root''
       (mem_of [request7] None)
     = (Inl (Returned ErrCouldNotUpdateStatus),
        \<lparr>w_state = w_state (mem_of [request7] None),
         w_calls = [Call_repo_FindByID 7 (Inr request7)]\<rparr>)"
proof -
  have h1: "repo_FindByID (mem_service cfg0) 7 (w_state (mem_of [request7] None))
     = (Inr request7, w_state (mem_of [request7] None))"
    by (simp add: mem_service_def mem_FindByID_def mem_of_def request7_def)
  have h2: "pr_SelectedOfferID request7 = None"
    by (simp add: request7_def)
  from status_requires_selected_offer [OF h1 h2, of "\<lparr>sd_DeliveryStatus = Purchased\<rparr>" "''root''"]
  show ?thesis using h1 h2 by (simp add: mem_of_def)
qed

text \<open>
  Claim C3. When the guards pass and the store's \<^verbatim>\<open>Update\<close> reports no error, the call
  record ends with the \<^verbatim>\<open>Update\<close> of the request carrying the new status followed by the
  notifier on the request as \<^verbatim>\<open>Update\<close> left it. An error of the notifier is the error of
  the operation, and the world is the one after the write and the notification: nothing
  undoes the write.
\<close>

theorem status_persisted_before_notify:
  fixes d :: "'s service"
  assumes find: "repo_FindByID d prID (w_state w) = (Inr pr, s1)"
    and sel: "pr_SelectedOfferID pr = Some sel"
    and usr: "userRepo_FindByID d userID s1 = (Inr user, s2)"
    and off: "offerRepo_GetByID d (new_Offer\<lparr>o_ID := sel\<rparr>) s2 = ((None, offer), s3)"
    and auth: "u_Role user = Admin \<or> (o_UserID offer = userID \<and> sd_DeliveryStatus req = Purchased)"
    and upd: "repo_Update d (pr\<lparr>pr_DeliveryStatus := sd_DeliveryStatus req\<rparr>) s3 = ((None, pr2), s4)"
    and ntf: "notificationService_PrNotify d pr2 s4 = (nerr, s5)"
  shows "UpdateProductRequestStatus d req prID userID w =
           (case nerr of Some e \<Rightarrow> Inl (Returned e) | None \<Rightarrow> Inr (),
            \<lparr>w_state = s5,
             w_calls = w_calls w @
               [Call_repo_FindByID prID (Inr pr),
                Call_userRepo_FindByID userID (Inr user),
                Call_offerRepo_GetByID (new_Offer\<lparr>o_ID := sel\<rparr>) (None, offer),
                Call_repo_Update (pr\<lparr>pr_DeliveryStatus := sd_DeliveryStatus req\<rparr>) (None, pr2),
                Call_PrNotify pr2 nerr]\<rparr>)"
proof -
  have pass: "\<not> (u_Role user \<noteq> Admin \<and> (o_UserID offer \<noteq> userID \<or> sd_DeliveryStatus req \<noteq> Purchased))"
    using auth by auto
  show ?thesis
    unfolding status_run [OF find sel usr off upd ntf] if_not_P [OF pass] by simp
qed

theorem status_persisted_before_notify_witness:
  "UpdateProductRequestStatus (mem_service cfg0) \<lparr>sd_DeliveryStatus = ''Delivered''\<rparr> 7 ''root''
       (mem_of [request7_selected] (Some (OtherError ''smtp down'')))
     = (Inl (Returned (OtherError ''smtp down'')),
        \<lparr>w_state =
           \<lparr>m_requests = [request7_selected\<lparr>pr_DeliveryStatus := ''Delivered''\<rparr>],
            m_users = users0, m_offers = [offer1, offer2],
            m_notified = [request7_selected\<lparr>pr_DeliveryStatus := ''Delivered''\<rparr>],
            m_notify_error = Some (OtherError ''smtp down'')\<rparr>,
         w_calls =
           [Call_repo_FindByID 7 (Inr request7_selected),
            Call_userRepo_FindByID ''root'' (Inr \<lparr>u_ID = ''root'', u_Role = Admin\<rparr>),
            Call_offerRepo_GetByID (new_Offer\<lparr>o_ID := 1\<rparr>) (None, offer1),
            Call_repo_Update (request7_selected\<lparr>pr_DeliveryStatus := ''Delivered''\<rparr>)
              (None, request7_selected\<lparr>pr_DeliveryStatus := ''Delivered''\<rparr>),
            Call_PrNotify (request7_selected\<lparr>pr_DeliveryStatus := ''Delivered''\<rparr>)
              (Some (OtherError ''smtp down''))]\<rparr>)"
proof -
  let ?d = "mem_service cfg0"
  let ?w = "mem_of [request7_selected] (Some (OtherError ''smtp down''))"
  let ?p = "request7_selected\<lparr>pr_DeliveryStatus := ''Delivered''\<rparr>"
  have find: "repo_FindByID ?d 7 (w_state ?w) = (Inr request7_selected, w_state ?w)"
    by (simp add: mem_service_sel mem_find7)
  have root: "userRepo_FindByID ?d ''root'' (w_state ?w)
                = (Inr \<lparr>u_ID = ''root'', u_Role = Admin\<rparr>, w_state ?w)"
    by (simp add: mem_service_sel mem_user_root)
  have off: "offerRepo_GetByID ?d (new_Offer\<lparr>o_ID := 1\<rparr>) (w_state ?w) = ((None, offer1), w_state ?w)"
    by (simp add: mem_service_sel mem_offer_1)
  have auth: "u_Role \<lparr>u_ID = ''root'', u_Role = Admin\<rparr> = Admin \<or>
     (o_UserID offer1 = ''root'' \<and> sd_DeliveryStatus \<lparr>sd_DeliveryStatus = ''Delivered''\<rparr> = Purchased)"
    by simp
  have upd: "repo_Update ?d (request7_selected\<lparr>pr_DeliveryStatus := sd_DeliveryStatus \<lparr>sd_DeliveryStatus = ''Delivered''\<rparr>\<rparr>) (w_state ?w)
               = ((None, ?p), snd (mem_Update ?p (w_state ?w)))"
    by (simp add: mem_service_sel mem_Update_def)
  have ntf: "notificationService_PrNotify ?d ?p (snd (mem_Update ?p (w_state ?w)))
               = (Some (OtherError ''smtp down''), snd (mem_PrNotify ?p (snd (mem_Update ?p (w_state ?w)))))"
    by (simp add: mem_service_sel mem_PrNotify_def mem_Update_def mem_of_def)
  show ?thesis
    using status_persisted_before_notify [OF find sel7 root off auth upd ntf]
    by (simp add: mem_of_def mem_PrNotify_def mem_Update_def request7_selected_def request7_def)
qed

section \<open>UpdateProductRequest\<close>

lemma offers_found_iff: "offers_found os offerID \<longleftrightarrow> offerID \<in> o_ID ` set os"
  by (induction os) auto

text \<open>
  Claim C4. When the request is found, the caller is its owner, and the offer named by
  the update is loaded (it exists) but its id is the id of no offer of the request, the
  operation returns \<open>ErrPermissionDenied\<close>; the calls made are the two lookups, so the
  request is not persisted.
\<close>

theorem update_rejects_offer_outside_request:
  fixes d :: "'s service"
  assumes find: "repo_FindByID d prID (w_state w) = (Inr pr, s1)"
    and owner: "pr_UserID pr = Some userID"
    and off: "offerRepo_GetByID d (new_Offer\<lparr>o_ID := upd_SelectedOfferID req\<rparr>) s1 = ((None, offer), s2)"
    and outside: "o_ID offer \<notin> o_ID ` set (pr_Offers pr)"
  shows "UpdateProductRequest d req prID userID w =
           (Inl (Returned ErrPermissionDenied),
            \<lparr>w_state = s2,
             w_calls = w_calls w @
               [Call_repo_FindByID prID (Inr pr),
                Call_offerRepo_GetByID (new_Offer\<lparr>o_ID := upd_SelectedOfferID req\<rparr>) (None, offer)]\<rparr>)"
  using find owner off outside
  by (simp add: UpdateProductRequest_def andThen_def call_val_def call_ptr_def deref_def
      return_err_def ret_def Let_def offers_found_iff)

theorem update_rejects_offer_outside_request_witness:
  "o_ID offer2 \<notin> o_ID ` set (pr_Offers request7) \<and>
   UpdateProductRequest (mem_service cfg0)
       \<lparr>upd_Name = ''tea'', upd_Desc = ''black tea'', upd_Budget = 120, upd_Category = ''food'',
        upd_Quantity = 2, upd_SelectedOfferID = 2\<rparr> 7 ''b1'' (mem_of [request7] None)
     = (Inl (Returned ErrPermissionDenied),
        \<lparr>w_state = w_state (mem_of [request7] None),
         w_calls = [Call_repo_FindByID 7 (Inr request7),
                    Call_offerRepo_GetByID (new_Offer\<lparr>o_ID := 2\<rparr>) (None, offer2)]\<rparr>)"
proof -
  let ?d = "mem_service cfg0"
  let ?w = "mem_of [request7] None"
  let ?req = "\<lparr>upd_Name = ''tea'', upd_Desc = ''black tea'', upd_Budget = 120,
     upd_Category = ''food'', upd_Quantity = 2, upd_SelectedOfferID = 2\<rparr>"
  have find: "repo_FindByID ?d 7 (w_state ?w) = (Inr request7, w_state ?w)"
    by (simp add: mem_service_sel mem_find7_plain)
  have owner: "pr_UserID request7 = Some ''b1''"
    by (simp add: request7_def)
  have off: "offerRepo_GetByID ?d (new_Offer\<lparr>o_ID := upd_SelectedOfferID ?req\<rparr>) (w_state ?w)
               = ((None, offer2), w_state ?w)"
    by (simp add: mem_service_sel mem_offer_2)
  have outside: "o_ID offer2 \<notin> o_ID ` set (pr_Offers request7)"
    by (simp add: request7_def offer1_def offer2_def)
  show ?thesis
    using update_rejects_offer_outside_request [OF find owner off outside] outside
    by (simp add: mem_of_def)
qed

text \<open>
  Claim C5. When the request is found and the caller is not its owner, the operation
  returns \<open>ErrPermissionDenied\<close>, whatever offer the update names (in the instance
  below it names an offer of the request), and the only call made is the request lookup:
  no offer lookup and no \<^verbatim>\<open>Update\<close>.
\<close>

theorem update_rejects_non_owner:
  fixes d :: "'s service"
  assumes find: "repo_FindByID d prID (w_state w) = (Inr pr, s1)"
    and owner: "pr_UserID pr = Some ownerID"
    and other: "userID \<noteq> ownerID"
  shows "UpdateProductRequest d req prID userID w =
           (Inl (Returned ErrPermissionDenied),
            \<lparr>w_state = s1, w_calls = w_calls w @ [Call_repo_FindByID prID (Inr pr)]\<rparr>)"
  using find owner other
  by (auto simp add: UpdateProductRequest_def andThen_def call_val_def deref_def
      return_err_def ret_def)

theorem update_rejects_non_owner_witness:
  "''t1'' \<noteq> ''b1'' \<and> o_ID offer1 \<in> o_ID ` set (pr_Offers request7) \<and>
   UpdateProductRequest (mem_service cfg0)
       \<lparr>upd_Name = ''tea'', upd_Desc = ''black tea'', upd_Budget = 120, upd_Category = ''food'',
        upd_Quantity = 2, upd_SelectedOfferID = 1\<rparr> 7 ''t1'' (mem_of [request7] None)
     = (Inl (Returned ErrPermissionDenied),
        \<lparr>w_state = w_state (mem_of [request7] None),
         w_calls = [Call_repo_FindByID 7 (Inr request7)]\<rparr>)"
proof -
  let ?d = "mem_service cfg0"
  let ?w = "mem_of [request7] None"
  have find: "repo_FindByID ?d 7 (w_state ?w) = (Inr request7, w_state ?w)"
    by (simp add: mem_service_sel mem_find7_plain)
  have owner: "pr_UserID request7 = Some ''b1''"
    by (simp add: request7_def)
  have other: "''t1'' \<noteq> ''b1''"
    by simp
  have inside: "o_ID offer1 \<in> o_ID ` set (pr_Offers request7)"
    by (simp add: request7_def)
  show ?thesis
    using update_rejects_non_owner [OF find owner other] inside
    by (simp add: mem_of_def)
qed

text \<open>
  Claim C10. The owner reference is dereferenced without a nil check: when the request
  that is found has no owner, the operation panics with a nil-pointer dereference instead
  of returning an error value, and the only call made is the request lookup, so the panic
  comes before any authorization decision or store write.
\<close>

theorem update_nil_owner_panics:
  fixes d :: "'s service"
  assumes find: "repo_FindByID d prID (w_state w) = (Inr pr, s1)"
    and unset: "pr_UserID pr = None"
  shows "UpdateProductRequest d req prID userID w =
           (Inl (Panicked NilPointerDereference),
            \<lparr>w_state = s1, w_calls = w_calls w @ [Call_repo_FindByID prID (Inr pr)]\<rparr>)"
  using find unset
  by (simp add: UpdateProductRequest_def andThen_def call_val_def deref_def go_panic_def)

theorem update_nil_owner_panics_witness:
  "pr_UserID (request7\<lparr>pr_UserID := None\<rparr>) = None \<and>
   UpdateProductRequest (mem_service cfg0)
       \<lparr>upd_Name = ''tea'', upd_Desc = ''black tea'', upd_Budget = 120, upd_Category = ''food'',
        upd_Quantity = 2, upd_SelectedOfferID = 1\<rparr> 7 ''b1''
       (mem_of [request7\<lparr>pr_UserID := None\<rparr>] None)
     = (Inl (Panicked NilPointerDereference),
        \<lparr>w_state = w_state (mem_of [request7\<lparr>pr_UserID := None\<rparr>] None),
         w_calls = [Call_repo_FindByID 7 (Inr (request7\<lparr>pr_UserID := None\<rparr>))]\<rparr>)"
proof -
  let ?d = "mem_service cfg0"
  let ?w = "mem_of [request7\<lparr>pr_UserID := None\<rparr>] None"
  have find: "repo_FindByID ?d 7 (w_state ?w) = (Inr (request7\<lparr>pr_UserID := None\<rparr>), w_state ?w)"
    by (simp add: mem_service_sel mem_FindByID_def mem_of_def request7_def)
  have unset: "pr_UserID (request7\<lparr>pr_UserID := None\<rparr>) = None"
    by simp
  show ?thesis
    using update_nil_owner_panics [OF find unset]
    by (simp add: mem_of_def)
qed

section \<open>GetPaginatedProductRequests\<close>

lemma word_sum_pred: fixes t l :: go_int shows "t + l - 1 = word_of_int (sint t + sint l - 1)"
  by simp

lemma sint_sum_pred: fixes t l :: go_int
  assumes lo: "- (2 ^ 63) \<le> sint t + sint l - 1" and fit: "sint t + sint l - 1 < 2 ^ 63"
  shows "sint (t + l - 1) = sint t + sint l - 1"
proof -
  have "sint (word_of_int (sint t + sint l - 1) :: go_int) = signed_take_bit 63 (sint t + sint l - 1)"
    by (simp only: sint_sbintrunc') simp
  also have "\<dots> = sint t + sint l - 1"
    by (rule signed_take_bit_int_eq_self) (use lo fit in simp_all)
  finally show ?thesis by (simp only: word_sum_pred [symmetric])
qed

lemma sint_small_of_int: 
  assumes "0 \<le> q" and "q < 2 ^ 63"
  shows "sint (word_of_int q :: go_int) = q"
proof -
  have "sint (word_of_int q :: go_int) = signed_take_bit 63 q"
    by (simp only: sint_sbintrunc') simp
  also have "\<dots> = q"
    by (rule signed_take_bit_int_eq_self) (use assms in simp_all)
  finally show ?thesis .
qed

lemma go_div_in_range:
  fixes t l :: go_int
  assumes t: "0 \<le> sint t" and l: "0 < sint l" and fit: "sint t + sint l - 1 < 2 ^ 63"
  shows "sint (word_of_int (sint (t + l - 1) sdiv sint l) :: go_int)
           = (sint t + sint l - 1) div sint l"
proof -
  let ?x = "sint t + sint l - 1"
  have lo: "- (2 ^ 63) \<le> ?x" using t l by simp
  have s: "sint (t + l - 1) = ?x"
    by (rule sint_sum_pred [OF lo fit])
  have x0: "0 \<le> ?x" using t l by simp
  have sd: "?x sdiv sint l = ?x div sint l"
    using x0 l by (simp add: signed_divide_int_def sgn_if)
  have q0: "0 \<le> ?x div sint l" using x0 l by (simp add: pos_imp_zdiv_nonneg_iff)
  have q1: "?x div sint l \<le> ?x"
    using zdiv_mono2 [of ?x 1 "sint l"] x0 l by simp
  have "sint (word_of_int (?x div sint l) :: go_int) = ?x div sint l"
    by (rule sint_small_of_int) (use q0 q1 fit in simp_all)
  then show ?thesis
    by (simp only: s sd)
qed

lemma ceiling_division:
  fixes t l :: int
  assumes "0 < l"
  shows "t \<le> ((t + l - 1) div l) * l" and "((t + l - 1) div l - 1) * l < t"
proof -
  let ?q = "(t + l - 1) div l"
  have e: "?q * l + (t + l - 1) mod l = t + l - 1" by simp
  have m0: "0 \<le> (t + l - 1) mod l" and m1: "(t + l - 1) mod l < l"
    using assms by simp_all
  show "t \<le> ?q * l" using e m1 by linarith
  have "(?q - 1) * l = ?q * l - l" by (simp add: algebra_simps)
  then show "(?q - 1) * l < t" using e m0 by linarith
qed

text \<open>
  Where the sum \<^verbatim>\<open>int(totalRows) + limit - 1\<close> does not leave the range of \<^verbatim>\<open>int\<close>, the
  page count is the ceiling of \<open>totalRows / limit\<close> (the least \<open>n\<close> with
  \<open>totalRows \<le> n * limit\<close>), and the response echoes page, limit and row count.
\<close>

lemma paginated_total_pages_in_range:
  fixes d :: "'s service"
  assumes store: "repo_FindPaginatedProductRequests d page limit (w_state w) = (Inr (prs, totalRows), s1)"
    and rows: "0 \<le> sint totalRows" and lim: "0 < sint limit"
    and fit: "sint totalRows + sint limit - 1 < 2 ^ 63"
    and ok: "GetPaginatedProductRequests d page limit w = (Inr res, w')"
  shows "sint totalRows \<le> sint (pg_TotalPages res) * sint limit \<and>
         (sint (pg_TotalPages res) - 1) * sint limit < sint totalRows \<and>
         pg_Page res = page \<and> pg_Limit res = limit \<and> pg_TotalRows res = totalRows"
proof -
  let ?w1 = "\<lparr>w_state = s1, w_calls = w_calls w @
     [Call_repo_FindPaginatedProductRequests page limit (Inr (prs, totalRows))]\<rparr>"
  let ?tp = "word_of_int (sint (totalRows + limit - 1) sdiv sint limit) :: go_int"
  have nz: "limit \<noteq> 0" using lim by auto
  have run: "GetPaginatedProductRequests d page limit w =
     andThen (detail_loop d prs []) (\<lambda>dest.
       ret \<lparr>pg_Data = dest, pg_Page = page, pg_Limit = limit, pg_TotalRows = totalRows,
            pg_TotalPages = ?tp\<rparr>) ?w1"
    using store nz
    by (simp add: GetPaginatedProductRequests_def andThen_def call_val_def go_div_def ret_def Let_def)
  obtain dest where res: "res = \<lparr>pg_Data = dest, pg_Page = page, pg_Limit = limit,
      pg_TotalRows = totalRows, pg_TotalPages = ?tp\<rparr>"
    using ok unfolding run
    by (auto simp add: andThen_def ret_def split: prod.splits sum.splits)
  have tp: "sint (pg_TotalPages res) = (sint totalRows + sint limit - 1) div sint limit"
    by (simp add: res go_div_in_range [OF rows lim fit])
  show ?thesis
    using ceiling_division [OF lim, of "sint totalRows"]
    by (simp add: tp) (simp add: res)
qed

text \<open>
  Claim C7. The claim holds in the range above but not for every \<open>limit > 0\<close>: the sum
  \<^verbatim>\<open>int(totalRows) + limit - 1\<close> wraps around in 64 bits. With two rows in the store and the
  largest \<^verbatim>\<open>int\<close> as limit the operation succeeds, echoes the limit and the row count,
  and reports \<open>-1\<close> pages, where the ceiling of \<open>2 / limit\<close> is \<open>1\<close>.
\<close>

theorem paginated_total_pages_wraps:
  "\<exists>res w'. GetPaginatedProductRequests (mem_service cfg0) 1 9223372036854775807
               (mem_of [request7_plain, request8_plain] None) = (Inr res, w') \<and>
      pg_TotalRows res = 2 \<and> pg_Limit res = 9223372036854775807 \<and>
      sint (pg_Limit res) = 2 ^ 63 - 1 \<and> sint (pg_TotalPages res) = - 1"
  by (simp add: GetPaginatedProductRequests_def andThen_def call_val_def go_div_def ret_def Let_def
      mem_service_sel mem_FindPaginated_def mem_of_def getUrls_def parse_15m_def
      signed_divide_int_def cfg0_def request7_plain_def request8_plain_def request7_def)

section \<open>getUrls\<close>

text \<open>
  \<open>Index\<close> finds the first occurrence, so \<open>SplitN\<close> with count 2 returns the text before
  and after the first occurrence of the separator, and the text itself when the
  separator does not occur.
\<close>

lemma Index_None_iff: "Index s sep = None \<longleftrightarrow> \<not> sublist sep s"
  by (induction s) (auto simp add: sublist_Cons_right)

lemma Index_le: "Index s sep = Some m \<Longrightarrow> m + length sep \<le> length s"
proof (induction s arbitrary: m)
  case Nil
  then show ?case by (simp split: if_splits)
next
  case (Cons c cs)
  show ?case
  proof (cases "prefix sep (c # cs)")
    case True
    then show ?thesis using Cons.prems by (auto dest: prefix_length_le)
  next
    case False
    then obtain k where "Index cs sep = Some k" "m = Suc k"
      using Cons.prems by auto
    then show ?thesis using Cons.IH by simp
  qed
qed

lemma Index_split: "Index s sep = Some m \<Longrightarrow> s = take m s @ sep @ drop (m + length sep) s"
proof (induction s arbitrary: m)
  case Nil
  then show ?case by (simp split: if_splits)
next
  case (Cons c cs)
  show ?case
  proof (cases "prefix sep (c # cs)")
    case True
    then have "m = 0" using Cons.prems by simp
    moreover from True obtain r where "c # cs = sep @ r" by (auto simp: prefix_def)
    ultimately show ?thesis by simp
  next
    case False
    then obtain k where k: "Index cs sep = Some k" "m = Suc k"
      using Cons.prems by auto
    then show ?thesis using Cons.IH [OF k(1)] by simp
  qed
qed

lemma Index_first: "Index s sep = Some m \<Longrightarrow> s = b @ sep @ a \<Longrightarrow> m \<le> length b"
proof (induction s arbitrary: m b)
  case Nil
  then show ?case by (simp split: if_splits)
next
  case (Cons c cs)
  show ?case
  proof (cases "prefix sep (c # cs)")
    case True
    then have "m = 0" using Cons.prems(1) by simp
    then show ?thesis by simp
  next
    case False
    then obtain k where k: "Index cs sep = Some k" "m = Suc k"
      using Cons.prems(1) by auto
    have "b \<noteq> []"
      using False Cons.prems(2) by (auto simp: prefix_def)
    then obtain b' where b: "b = c # b'" and cs: "cs = b' @ sep @ a"
      using Cons.prems(2) by (cases b) auto
    show ?thesis using Cons.IH [OF k(1) cs] k(2) b by simp
  qed
qed

lemma Index_first_split:
  "Index s sep = Some m \<Longrightarrow> first_split sep s (take m s) (drop (m + length sep) s)"
  unfolding first_split_def
proof (intro conjI allI impI)
  assume i: "Index s sep = Some m"
  show "s = take m s @ sep @ drop (m + length sep) s" by (rule Index_split [OF i])
  fix b a assume "s = b @ sep @ a"
  from Index_first [OF i this] show "length (take m s) \<le> length b" by simp
qed

lemma first_split_unique:
  assumes "first_split sep s b a" and "first_split sep s b' a'"
  shows "b = b' \<and> a = a'"
proof -
  from assms have e: "s = b @ sep @ a" "s = b' @ sep @ a'" and "length b \<le> length b'" "length b' \<le> length b"
    by (auto simp: first_split_def)
  then have "length b = length b'" by simp
  with e show ?thesis by (metis append_eq_append_conv same_append_eq)
qed

lemma SplitN_2:
  assumes "sep \<noteq> []"
  shows "SplitN s sep 2 =
           (case Index s sep of None \<Rightarrow> [s] | Some m \<Rightarrow> [take m s, drop (m + length sep) s])"
proof (cases s)
  case Nil
  then show ?thesis using assms by (simp add: SplitN_def)
next
  case (Cons c cs)
  then have "min 2 (length s + 1) - 1 = Suc 0" by simp
  then show ?thesis by (simp add: SplitN_def split: option.splits)
qed

lemma split_without_separator:
  assumes "sep \<noteq> []" and "\<not> sublist sep s"
  shows "SplitN s sep 2 = [s]"
  using assms by (simp add: SplitN_2 Index_None_iff [symmetric])

lemma split_with_separator:
  assumes "sep \<noteq> []" and "sublist sep s"
  shows "\<exists>before after. first_split sep s before after \<and> SplitN s sep 2 = [before, after]"
proof -
  from assms(2) obtain m where m: "Index s sep = Some m"
    using Index_None_iff [of s sep] by (cases "Index s sep") auto
  from Index_first_split [OF m] show ?thesis
    using assms(1) m by (auto simp add: SplitN_2)
qed

lemma split_first_split:
  assumes "sep \<noteq> []" and fs: "first_split sep s before after"
  shows "SplitN s sep 2 = [before, after]"
proof -
  from fs have "sublist sep s" by (auto simp: first_split_def sublist_def)
  from split_with_separator [OF assms(1) this]
  obtain b a where "first_split sep s b a" and sp: "SplitN s sep 2 = [b, a]" by blast
  with first_split_unique [OF fs this(1)] show ?thesis by simp
qed

lemma getUrls_loop_without_separator:
  assumes "\<not> sublist ''hewpao-s3/'' img"
  shows "getUrls_loop d dur (img # imgs) acc w = (Inl (Panicked (IndexOutOfRange 1 1)), w)"
proof -
  have "SplitN img ''hewpao-s3/'' 2 = [img]"
    by (rule split_without_separator) (use assms in simp_all)
  then show ?thesis
    by (simp add: andThen_def index_at_def go_panic_def)
qed

lemma getUrls_loop_with_separator:
  assumes fs: "first_split ''hewpao-s3/'' img before after"
    and sign: "minioRepo_GetSignedURL d (cfg_S3BucketName (cfg d)) after dur (w_state w) = (r, s')"
  shows "getUrls_loop d dur (img # imgs) acc w =
           (case r of
              Inl e \<Rightarrow> (Inl (Returned e),
                 \<lparr>w_state = s', w_calls = w_calls w @
                    [Call_minioRepo_GetSignedURL (cfg_S3BucketName (cfg d)) after dur r]\<rparr>)
            | Inr url \<Rightarrow> getUrls_loop d dur imgs (acc @ [url])
                 \<lparr>w_state = s', w_calls = w_calls w @
                    [Call_minioRepo_GetSignedURL (cfg_S3BucketName (cfg d)) after dur r]\<rparr>)"
proof -
  have "SplitN img ''hewpao-s3/'' 2 = [before, after]"
    by (rule split_first_split [OF _ fs]) simp
  then show ?thesis
    using sign
    by (simp add: andThen_def index_at_def ret_def call_val_def split: sum.splits)
qed

lemma getUrls_loop_calls:
  assumes "getUrls_loop d dur imgs acc w = (out, w')"
  shows "\<exists>evs. w_calls w' = w_calls w @ evs \<and> length evs \<le> length imgs \<and>
      (\<forall>i<length evs. \<exists>before after r. first_split ''hewpao-s3/'' (imgs ! i) before after \<and>
          evs ! i = Call_minioRepo_GetSignedURL (cfg_S3BucketName (cfg d)) after dur r) \<and>
      (\<forall>urls. out = Inr urls \<longrightarrow>
         (\<exists>new. urls = acc @ new \<and> length new = length imgs \<and> length evs = length imgs \<and>
            (\<forall>i<length imgs. \<exists>before after. first_split ''hewpao-s3/'' (imgs ! i) before after \<and>
                evs ! i = Call_minioRepo_GetSignedURL (cfg_S3BucketName (cfg d)) after dur
                            (Inr (new ! i)))))"
  using assms
proof (induction imgs arbitrary: acc w)
  case Nil
  then show ?case by (auto simp add: ret_def)
next
  case (Cons img imgs)
  show ?case
  proof (cases "sublist ''hewpao-s3/'' img")
    case False
    from Cons.prems show ?thesis
      unfolding getUrls_loop_without_separator [OF False] by auto
  next
    case True
    then obtain before after where fs: "first_split ''hewpao-s3/'' img before after"
      using split_with_separator [of "''hewpao-s3/''" img] by auto
    obtain r s' where sign:
      "minioRepo_GetSignedURL d (cfg_S3BucketName (cfg d)) after dur (w_state w) = (r, s')"
      by (cases "minioRepo_GetSignedURL d (cfg_S3BucketName (cfg d)) after dur (w_state w)")
    let ?ev = "Call_minioRepo_GetSignedURL (cfg_S3BucketName (cfg d)) after dur r"
    let ?w1 = "\<lparr>w_state = s', w_calls = w_calls w @ [?ev]\<rparr>"
    note step = getUrls_loop_with_separator [OF fs sign, of imgs acc]
    show ?thesis
    proof (cases r)
      case (Inl e)
      with Cons.prems step have "out = Inl (Returned e)" and "w_calls w' = w_calls w @ [?ev]"
        by auto
      then show ?thesis using fs
        by (intro exI [of _ "[?ev]"]) auto
    next
      case (Inr url)
      with Cons.prems step have "getUrls_loop d dur imgs (acc @ [url]) ?w1 = (out, w')"
        by simp
      from Cons.IH [OF this] obtain evs where
        calls: "w_calls w' = w_calls ?w1 @ evs" and len: "length evs \<le> length imgs"
        and each: "\<forall>i<length evs. \<exists>before after r. first_split ''hewpao-s3/'' (imgs ! i) before after \<and>
          evs ! i = Call_minioRepo_GetSignedURL (cfg_S3BucketName (cfg d)) after dur r"
        and ok: "\<forall>urls. out = Inr urls \<longrightarrow>
         (\<exists>new. urls = (acc @ [url]) @ new \<and> length new = length imgs \<and> length evs = length imgs \<and>
            (\<forall>i<length imgs. \<exists>before after. first_split ''hewpao-s3/'' (imgs ! i) before after \<and>
                evs ! i = Call_minioRepo_GetSignedURL (cfg_S3BucketName (cfg d)) after dur
                            (Inr (new ! i))))"
        by blast
      have 1: "w_calls w' = w_calls w @ (?ev # evs)" using calls by simp
      have 2: "length (?ev # evs) \<le> length (img # imgs)" using len by simp
      have 3: "\<forall>i<length (?ev # evs). \<exists>before after r.
          first_split ''hewpao-s3/'' ((img # imgs) ! i) before after \<and>
          (?ev # evs) ! i = Call_minioRepo_GetSignedURL (cfg_S3BucketName (cfg d)) after dur r"
        using each fs by (auto simp add: All_less_Suc2)
      have 4: "\<forall>urls. out = Inr urls \<longrightarrow>
         (\<exists>new. urls = acc @ new \<and> length new = length (img # imgs) \<and>
            length (?ev # evs) = length (img # imgs) \<and>
            (\<forall>i<length (img # imgs). \<exists>before after.
                first_split ''hewpao-s3/'' ((img # imgs) ! i) before after \<and>
                (?ev # evs) ! i = Call_minioRepo_GetSignedURL (cfg_S3BucketName (cfg d)) after dur
                            (Inr (new ! i))))"
      proof (intro allI impI)
        fix urls assume "out = Inr urls"
        with ok obtain new where new: "urls = (acc @ [url]) @ new" "length new = length imgs"
          "length evs = length imgs"
          "\<forall>i<length imgs. \<exists>before after. first_split ''hewpao-s3/'' (imgs ! i) before after \<and>
                evs ! i = Call_minioRepo_GetSignedURL (cfg_S3BucketName (cfg d)) after dur
                            (Inr (new ! i))"
          by blast
        show "\<exists>new. urls = acc @ new \<and> length new = length (img # imgs) \<and>
            length (?ev # evs) = length (img # imgs) \<and>
            (\<forall>i<length (img # imgs). \<exists>before after.
                first_split ''hewpao-s3/'' ((img # imgs) ! i) before after \<and>
                (?ev # evs) ! i = Call_minioRepo_GetSignedURL (cfg_S3BucketName (cfg d)) after dur
                            (Inr (new ! i)))"
          using new fs Inr
          by (intro exI [of _ "url # new"]) (auto simp add: All_less_Suc2)
      qed
      from 1 2 3 4 show ?thesis by blast
    qed
  qed
qed

lemma calls_since_append: "w_calls w' = w_calls w @ evs \<Longrightarrow> calls_since w w' = evs"
  by (simp add: calls_since_def)

lemma getUrls_calls:
  assumes run: "getUrls d pr w = (out, w')"
    and parse: "time_ParseDuration d (cfg_S3Expiration (cfg d)) = Inr dur"
  shows "length (calls_since w w') \<le> length (pr_Images pr) \<and>
      (\<forall>i<length (calls_since w w'). \<exists>before after r.
          first_split ''hewpao-s3/'' (pr_Images pr ! i) before after \<and>
          calls_since w w' ! i = Call_minioRepo_GetSignedURL (cfg_S3BucketName (cfg d)) after dur r) \<and>
      (\<forall>urls. out = Inr urls \<longrightarrow>
          length urls = length (pr_Images pr) \<and>
          length (calls_since w w') = length (pr_Images pr) \<and>
          (\<forall>i<length (pr_Images pr). \<exists>before after.
              first_split ''hewpao-s3/'' (pr_Images pr ! i) before after \<and>
              calls_since w w' ! i =
                Call_minioRepo_GetSignedURL (cfg_S3BucketName (cfg d)) after dur (Inr (urls ! i))))"
proof -
  from run parse have "getUrls_loop d dur (pr_Images pr) [] w = (out, w')"
    by (simp add: getUrls_def)
  from getUrls_loop_calls [OF this] obtain evs where
    calls: "w_calls w' = w_calls w @ evs" and rest:
    "length evs \<le> length (pr_Images pr)"
    "\<forall>i<length evs. \<exists>before after r. first_split ''hewpao-s3/'' (pr_Images pr ! i) before after \<and>
          evs ! i = Call_minioRepo_GetSignedURL (cfg_S3BucketName (cfg d)) after dur r"
    "\<forall>urls. out = Inr urls \<longrightarrow>
         (\<exists>new. urls = [] @ new \<and> length new = length (pr_Images pr) \<and>
            length evs = length (pr_Images pr) \<and>
            (\<forall>i<length (pr_Images pr). \<exists>before after.
                first_split ''hewpao-s3/'' (pr_Images pr ! i) before after \<and>
                evs ! i = Call_minioRepo_GetSignedURL (cfg_S3BucketName (cfg d)) after dur
                            (Inr (new ! i))))"
    by blast
  have cs: "calls_since w w' = evs" by (rule calls_since_append [OF calls])
  show ?thesis unfolding cs using rest by auto
qed

lemma detail_scenario:
  fixes d :: "'s service"
  assumes find: "repo_FindByID d id' (w_state w) = (Inr pr, s1)"
    and imgs: "pr_Images pr = [''hewpao-s3/images/a.png'']"
    and bucket: "cfg_S3BucketName (cfg d) = ''hewpao-s3''"
    and ttl: "cfg_S3Expiration (cfg d) = ''15m''"
    and parse: "time_ParseDuration d ''15m'' = Inr (15 * Minute)"
    and sign: "minioRepo_GetSignedURL d ''hewpao-s3'' ''images/a.png'' (15 * Minute) s1 = (r, s2)"
  shows "w_calls (snd (GetDetailByID d id' w)) = w_calls w @
           [Call_repo_FindByID id' (Inr pr),
            Call_minioRepo_GetSignedURL ''hewpao-s3'' ''images/a.png'' (15 * Minute) r]"
    and "\<forall>url. r = Inr url \<longrightarrow>
           (\<exists>res. fst (GetDetailByID d id' w) = Inr res \<and> dto_Images res = [url])"
  using assms
  by (simp_all add: GetDetailByID_def getUrls_def andThen_def call_val_def index_at_def
      SplitN_def ret_def split: sum.splits)

lemma getUrls_loop_failure:
  assumes "getUrls_loop d dur imgs acc w = (out, w')"
  shows "\<exists>evs. w_calls w' = w_calls w @ evs \<and>
      (\<forall>urls. out = Inr urls \<longrightarrow> (\<forall>img\<in>set imgs. sublist ''hewpao-s3/'' img)) \<and>
      (\<forall>e. out = Inl (Returned e) \<longrightarrow> (\<exists>ev\<in>set evs. is_signer_error ev)) \<and>
      (\<forall>p. out = Inl (Panicked p) \<longrightarrow> p = IndexOutOfRange 1 1)"
  using assms
proof (induction imgs arbitrary: acc w)
  case Nil
  then show ?case by (auto simp add: ret_def)
next
  case (Cons img imgs)
  show ?case
  proof (cases "sublist ''hewpao-s3/'' img")
    case False
    from Cons.prems show ?thesis
      unfolding getUrls_loop_without_separator [OF False] by auto
  next
    case True
    then obtain before after where fs: "first_split ''hewpao-s3/'' img before after"
      using split_with_separator [of "''hewpao-s3/''" img] by auto
    obtain r s' where sign:
      "minioRepo_GetSignedURL d (cfg_S3BucketName (cfg d)) after dur (w_state w) = (r, s')"
      by (cases "minioRepo_GetSignedURL d (cfg_S3BucketName (cfg d)) after dur (w_state w)")
    let ?ev = "Call_minioRepo_GetSignedURL (cfg_S3BucketName (cfg d)) after dur r"
    let ?w1 = "\<lparr>w_state = s', w_calls = w_calls w @ [?ev]\<rparr>"
    note step = getUrls_loop_with_separator [OF fs sign, of imgs acc]
    show ?thesis
    proof (cases r)
      case (Inl e)
      with Cons.prems step have "out = Inl (Returned e)" and "w_calls w' = w_calls w @ [?ev]"
        by auto
      then show ?thesis using Inl
        by (intro exI [of _ "[?ev]"]) auto
    next
      case (Inr url)
      with Cons.prems step have "getUrls_loop d dur imgs (acc @ [url]) ?w1 = (out, w')"
        by simp
      from Cons.IH [OF this] obtain evs where
        calls: "w_calls w' = w_calls ?w1 @ evs"
        and ok: "\<forall>urls. out = Inr urls \<longrightarrow> (\<forall>img\<in>set imgs. sublist ''hewpao-s3/'' img)"
        and err: "\<forall>e. out = Inl (Returned e) \<longrightarrow> (\<exists>ev\<in>set evs. is_signer_error ev)"
        and pan: "\<forall>p. out = Inl (Panicked p) \<longrightarrow> p = IndexOutOfRange 1 1"
        by blast
      have "w_calls w' = w_calls w @ (?ev # evs)" using calls by simp
      moreover have "\<forall>urls. out = Inr urls \<longrightarrow> (\<forall>i\<in>set (img # imgs). sublist ''hewpao-s3/'' i)"
        using ok True by simp
      moreover have "\<forall>e. out = Inl (Returned e) \<longrightarrow> (\<exists>ev\<in>set (?ev # evs). is_signer_error ev)"
        using err by auto
      ultimately show ?thesis using pan by blast
    qed
  qed
qed

text \<open>
  An outcome that is neither a value nor a returned error is the panic.
\<close>

lemma only_the_panic_is_left:
  fixes out :: "failure + 'a"
  assumes "\<forall>x. out \<noteq> Inr x" and "\<forall>e. out \<noteq> Inl (Returned e)"
    and "\<forall>p. out = Inl (Panicked p) \<longrightarrow> p = q"
  shows "out = Inl (Panicked q)"
proof (cases out)
  case (Inl f)
  then show ?thesis using assms by (cases f) auto
next
  case (Inr x)
  then show ?thesis using assms by simp
qed

lemma getUrls_failure:
  assumes parse: "time_ParseDuration d (cfg_S3Expiration (cfg d)) = Inr dur"
    and run: "getUrls d pr w = (out, w')"
  shows "\<exists>evs. w_calls w' = w_calls w @ evs \<and>
      (\<forall>urls. out = Inr urls \<longrightarrow> (\<forall>img\<in>set (pr_Images pr). sublist ''hewpao-s3/'' img)) \<and>
      (\<forall>e. out = Inl (Returned e) \<longrightarrow> (\<exists>ev\<in>set evs. is_signer_error ev)) \<and>
      (\<forall>p. out = Inl (Panicked p) \<longrightarrow> p = IndexOutOfRange 1 1)"
proof -
  from run parse have "getUrls_loop d dur (pr_Images pr) [] w = (out, w')"
    by (simp add: getUrls_def)
  then show ?thesis by (rule getUrls_loop_failure)
qed

lemma detail_loop_failure:
  assumes parse: "time_ParseDuration d (cfg_S3Expiration (cfg d)) = Inr dur"
    and run: "detail_loop d prs res w = (out, w')"
  shows "\<exists>evs. w_calls w' = w_calls w @ evs \<and>
      (\<forall>x. out = Inr x \<longrightarrow> (\<forall>pr\<in>set prs. \<forall>img\<in>set (pr_Images pr). sublist ''hewpao-s3/'' img)) \<and>
      (\<forall>e. out = Inl (Returned e) \<longrightarrow> (\<exists>ev\<in>set evs. is_signer_error ev)) \<and>
      (\<forall>p. out = Inl (Panicked p) \<longrightarrow> p = IndexOutOfRange 1 1)"
  using run
proof (induction prs arbitrary: res w)
  case Nil
  then show ?case by (auto simp add: ret_def)
next
  case (Cons pr rest)
  obtain o1 w1 where g: "getUrls d pr w = (o1, w1)"
    by (cases "getUrls d pr w")
  from getUrls_failure [OF parse g] obtain evs1 where
    c1: "w_calls w1 = w_calls w @ evs1"
    and ok1: "\<forall>urls. o1 = Inr urls \<longrightarrow> (\<forall>img\<in>set (pr_Images pr). sublist ''hewpao-s3/'' img)"
    and err1: "\<forall>e. o1 = Inl (Returned e) \<longrightarrow> (\<exists>ev\<in>set evs1. is_signer_error ev)"
    and pan1: "\<forall>p. o1 = Inl (Panicked p) \<longrightarrow> p = IndexOutOfRange 1 1"
    by blast
  show ?case
  proof (cases o1)
    case (Inl f)
    with Cons.prems g have "out = Inl f" and "w' = w1"
      by (simp_all add: andThen_def)
    then show ?thesis using c1 err1 pan1 Inl
      by (intro exI [of _ evs1]) auto
  next
    case (Inr urls)
    with Cons.prems g obtain res' where "detail_loop d rest res' w1 = (out, w')"
      by (simp add: andThen_def)
    from Cons.IH [OF this] obtain evs2 where
      c2: "w_calls w' = w_calls w1 @ evs2"
      and ok2: "\<forall>x. out = Inr x \<longrightarrow> (\<forall>pr\<in>set rest. \<forall>img\<in>set (pr_Images pr). sublist ''hewpao-s3/'' img)"
      and err2: "\<forall>e. out = Inl (Returned e) \<longrightarrow> (\<exists>ev\<in>set evs2. is_signer_error ev)"
      and pan2: "\<forall>p. out = Inl (Panicked p) \<longrightarrow> p = IndexOutOfRange 1 1"
      by blast
    have "w_calls w' = w_calls w @ (evs1 @ evs2)" using c1 c2 by simp
    moreover have "\<forall>x. out = Inr x \<longrightarrow>
        (\<forall>p\<in>set (pr # rest). \<forall>img\<in>set (pr_Images p). sublist ''hewpao-s3/'' img)"
      using ok1 ok2 Inr by simp
    moreover have "\<forall>e. out = Inl (Returned e) \<longrightarrow> (\<exists>ev\<in>set (evs1 @ evs2). is_signer_error ev)"
      using err2 by auto
    ultimately show ?thesis using pan2 by blast
  qed
qed

lemma getUrls_malformed:
  assumes bad: "img \<in> set (pr_Images pr)" "\<not> sublist ''hewpao-s3/'' img"
    and parse: "time_ParseDuration d (cfg_S3Expiration (cfg d)) = Inr dur"
    and run: "getUrls d pr w = (out, w')"
    and quiet: "\<forall>ev\<in>set (calls_since w w'). \<not> is_signer_error ev"
  shows "out = Inl (Panicked (IndexOutOfRange 1 1))"
proof -
  from getUrls_failure [OF parse run] obtain evs where
    c: "w_calls w' = w_calls w @ evs"
    and ok: "\<forall>urls. out = Inr urls \<longrightarrow> (\<forall>img\<in>set (pr_Images pr). sublist ''hewpao-s3/'' img)"
    and err: "\<forall>e. out = Inl (Returned e) \<longrightarrow> (\<exists>ev\<in>set evs. is_signer_error ev)"
    and pan: "\<forall>p. out = Inl (Panicked p) \<longrightarrow> p = IndexOutOfRange 1 1"
    by blast
  have cs: "calls_since w w' = evs" by (rule calls_since_append [OF c])
  show ?thesis
  proof (rule only_the_panic_is_left)
    show "\<forall>x. out \<noteq> Inr x" using ok bad by blast
    show "\<forall>e. out \<noteq> Inl (Returned e)" using err quiet cs by blast
    show "\<forall>p. out = Inl (Panicked p) \<longrightarrow> p = IndexOutOfRange 1 1" by (rule pan)
  qed
qed

lemma detail_loop_malformed:
  assumes bad: "pr \<in> set prs" "img \<in> set (pr_Images pr)" "\<not> sublist ''hewpao-s3/'' img"
    and parse: "time_ParseDuration d (cfg_S3Expiration (cfg d)) = Inr dur"
    and run: "detail_loop d prs res w = (out, w')"
    and quiet: "\<forall>ev\<in>set (calls_since w w'). \<not> is_signer_error ev"
  shows "out = Inl (Panicked (IndexOutOfRange 1 1))"
proof -
  from detail_loop_failure [OF parse run] obtain evs where
    c: "w_calls w' = w_calls w @ evs"
    and ok: "\<forall>x. out = Inr x \<longrightarrow> (\<forall>pr\<in>set prs. \<forall>img\<in>set (pr_Images pr). sublist ''hewpao-s3/'' img)"
    and err: "\<forall>e. out = Inl (Returned e) \<longrightarrow> (\<exists>ev\<in>set evs. is_signer_error ev)"
    and pan: "\<forall>p. out = Inl (Panicked p) \<longrightarrow> p = IndexOutOfRange 1 1"
    by blast
  have cs: "calls_since w w' = evs" by (rule calls_since_append [OF c])
  show ?thesis
  proof (rule only_the_panic_is_left)
    show "\<forall>x. out \<noteq> Inr x" using ok bad by blast
    show "\<forall>e. out \<noteq> Inl (Returned e)" using err quiet cs by blast
    show "\<forall>p. out = Inl (Panicked p) \<longrightarrow> p = IndexOutOfRange 1 1" by (rule pan)
  qed
qed

lemma getUrls_extends_calls: "getUrls d pr w = (out, w') \<Longrightarrow> \<exists>evs. w_calls w' = w_calls w @ evs"
proof (cases "time_ParseDuration d (cfg_S3Expiration (cfg d))")
  case (Inl e)
  assume "getUrls d pr w = (out, w')"
  with Inl show ?thesis by (simp add: getUrls_def return_err_def)
next
  case (Inr dur)
  assume "getUrls d pr w = (out, w')"
  from getUrls_failure [OF Inr this] show ?thesis by blast
qed

lemma quiet_later:
  assumes "w_calls w1 = w_calls w @ a" and "w_calls w' = w_calls w1 @ b"
    and "\<forall>ev\<in>set (calls_since w w'). \<not> P ev"
  shows "\<forall>ev\<in>set (calls_since w1 w'). \<not> P ev"
proof -
  have "calls_since w w' = a @ b" using assms(1,2) by (simp add: calls_since_def)
  moreover have "calls_since w1 w' = b" using assms(2) by (simp add: calls_since_def)
  ultimately show ?thesis using assms(3) by simp
qed

lemma detail_malformed:
  fixes d :: "'s service"
  assumes bad: "img \<in> set (pr_Images pr)" "\<not> sublist ''hewpao-s3/'' img"
    and parse: "time_ParseDuration d (cfg_S3Expiration (cfg d)) = Inr dur"
    and find: "repo_FindByID d id' (w_state w) = (Inr pr, s1)"
    and run: "GetDetailByID d id' w = (out, w')"
    and quiet: "\<forall>ev\<in>set (calls_since w w'). \<not> is_signer_error ev"
  shows "out = Inl (Panicked (IndexOutOfRange 1 1))"
proof -
  let ?w1 = "\<lparr>w_state = s1, w_calls = w_calls w @ [Call_repo_FindByID id' (Inr pr)]\<rparr>"
  obtain o1 w1' where g: "getUrls d pr ?w1 = (o1, w1')"
    by (cases "getUrls d pr ?w1")
  from run find g have out: "out = (case o1 of Inl f \<Rightarrow> Inl f | Inr urls \<Rightarrow> Inr
       \<lparr>dto_ID = pr_ID pr, dto_Desc = pr_Desc pr, dto_Category = pr_Category pr,
        dto_Images = urls, dto_Budget = pr_Budget pr, dto_Quantity = pr_Quantity pr,
        dto_UserID = pr_UserID pr, dto_Offers = pr_Offers pr,
        dto_Transactions = pr_Transactions pr, dto_CreatedAt = pr_CreatedAt pr,
        dto_UpdatedAt = pr_UpdatedAt pr,
        dto_DeletedAt = Some (da_Time (pr_DeletedAt pr))\<rparr>)" and w': "w' = w1'"
    by (auto simp add: GetDetailByID_def andThen_def call_val_def ret_def split: sum.splits)
  from getUrls_extends_calls [OF g] obtain evs where e: "w_calls w1' = w_calls ?w1 @ evs"
    by blast
  have "\<forall>ev\<in>set (calls_since ?w1 w1'). \<not> is_signer_error ev"
    by (rule quiet_later [OF _ e, of w "[Call_repo_FindByID id' (Inr pr)]"])
       (use quiet w' in simp_all)
  from getUrls_malformed [OF bad parse g this] show ?thesis
    by (simp add: out)
qed

lemma detail_loop_extends_calls:
  "detail_loop d prs res w = (out, w') \<Longrightarrow> \<exists>evs. w_calls w' = w_calls w @ evs"
proof (induction prs arbitrary: res w)
  case Nil
  then show ?case by (simp add: ret_def)
next
  case (Cons pr rest)
  obtain o1 w1 where g: "getUrls d pr w = (o1, w1)"
    by (cases "getUrls d pr w")
  from getUrls_extends_calls [OF g] obtain evs1 where c1: "w_calls w1 = w_calls w @ evs1"
    by blast
  show ?case
  proof (cases o1)
    case (Inl f)
    with Cons.prems g have "w' = w1" by (simp add: andThen_def)
    with c1 show ?thesis by blast
  next
    case (Inr urls)
    with Cons.prems g obtain res' where "detail_loop d rest res' w1 = (out, w')"
      by (simp add: andThen_def)
    from Cons.IH [OF this] obtain evs2 where "w_calls w' = w_calls w1 @ evs2" by blast
    with c1 have "w_calls w' = w_calls w @ (evs1 @ evs2)" by simp
    then show ?thesis by blast
  qed
qed

lemma buyer_malformed:
  fixes d :: "'s service"
  assumes bad: "pr \<in> set prs" "img \<in> set (pr_Images pr)" "\<not> sublist ''hewpao-s3/'' img"
    and parse: "time_ParseDuration d (cfg_S3Expiration (cfg d)) = Inr dur"
    and find: "repo_FindByUserID d uid (w_state w) = (Inr prs, s1)"
    and run: "GetBuyerProductRequestsByUserID d uid w = (out, w')"
    and quiet: "\<forall>ev\<in>set (calls_since w w'). \<not> is_signer_error ev"
  shows "out = Inl (Panicked (IndexOutOfRange 1 1))"
proof -
  let ?w1 = "\<lparr>w_state = s1, w_calls = w_calls w @ [Call_repo_FindByUserID uid (Inr prs)]\<rparr>"
  from run find have l: "detail_loop d prs [] ?w1 = (out, w')"
    by (simp add: GetBuyerProductRequestsByUserID_def andThen_def call_val_def)
  from detail_loop_extends_calls [OF l] obtain evs where e: "w_calls w' = w_calls ?w1 @ evs"
    by blast
  have "\<forall>ev\<in>set (calls_since ?w1 w'). \<not> is_signer_error ev"
    by (rule quiet_later [OF _ e, of w "[Call_repo_FindByUserID uid (Inr prs)]"])
       (use quiet in simp_all)
  from detail_loop_malformed [OF bad parse l this] show ?thesis .
qed

lemma paginated_malformed:
  fixes d :: "'s service"
  assumes bad: "pr \<in> set prs" "img \<in> set (pr_Images pr)" "\<not> sublist ''hewpao-s3/'' img"
    and parse: "time_ParseDuration d (cfg_S3Expiration (cfg d)) = Inr dur"
    and find: "repo_FindPaginatedProductRequests d page limit (w_state w) = (Inr (prs, totalRows), s1)"
    and limit: "limit \<noteq> 0"
    and run: "GetPaginatedProductRequests d page limit w = (out, w')"
    and quiet: "\<forall>ev\<in>set (calls_since w w'). \<not> is_signer_error ev"
  shows "out = Inl (Panicked (IndexOutOfRange 1 1))"
proof -
  let ?w1 = "\<lparr>w_state = s1, w_calls = w_calls w @
     [Call_repo_FindPaginatedProductRequests page limit (Inr (prs, totalRows))]\<rparr>"
  obtain o1 w1' where l: "detail_loop d prs [] ?w1 = (o1, w1')"
    by (cases "detail_loop d prs [] ?w1")
  from run find limit l have out: "out = (case o1 of Inl f \<Rightarrow> Inl f | Inr dest \<Rightarrow> Inr
       \<lparr>pg_Data = dest, pg_Page = page, pg_Limit = limit, pg_TotalRows = totalRows,
        pg_TotalPages = word_of_int (sint (totalRows + limit - 1) sdiv sint limit)\<rparr>)"
    and w': "w' = w1'"
    by (auto simp add: GetPaginatedProductRequests_def andThen_def call_val_def go_div_def
        ret_def Let_def split: sum.splits)
  from detail_loop_extends_calls [OF l] obtain evs where e: "w_calls w1' = w_calls ?w1 @ evs"
    by blast
  have "\<forall>ev\<in>set (calls_since ?w1 w1'). \<not> is_signer_error ev"
    by (rule quiet_later [OF _ e, of w
          "[Call_repo_FindPaginatedProductRequests page limit (Inr (prs, totalRows))]"])
       (use quiet w' in simp_all)
  from detail_loop_malformed [OF bad parse l this] show ?thesis
    by (simp add: out)
qed

lemma no_separator_in_b: "\<not> sublist ''hewpao-s3/'' ''images/b.png''"
  by (simp add: Index_None_iff [symmetric])

text \<open>
  Claim C9, as amended. Let a request hold an image without the separator
  \<^verbatim>\<open>"hewpao-s3/"\<close>, and let the configured expiration parse. A run of the URL resolution
  over the request in which no signing returns an error ends in the panic ``index out of
  range [1] with length 1'', not in an error value. So does such a run of \<open>GetDetailByID\<close>
  that finds the request, of \<open>GetBuyerProductRequestsByUserID\<close> over requests that
  include it, and of \<open>GetPaginatedProductRequests\<close> over requests that include it with a
  limit other than 0.
\<close>

theorem malformed_uri_panics:
  fixes d :: "'s service"
  assumes bad: "img \<in> set (pr_Images pr)" "\<not> sublist ''hewpao-s3/'' img"
    and parse: "time_ParseDuration d (cfg_S3Expiration (cfg d)) = Inr dur"
  shows
   "(getUrls d pr w = (out, w') \<and>
     (\<forall>ev\<in>set (calls_since w w'). \<not> is_signer_error ev) \<longrightarrow>
       out = Inl (Panicked (IndexOutOfRange 1 1))) \<and>
    (repo_FindByID d id' (w_state w) = (Inr pr, sa) \<and>
     GetDetailByID d id' w = (outa, wa) \<and>
     (\<forall>ev\<in>set (calls_since w wa). \<not> is_signer_error ev) \<longrightarrow>
       outa = Inl (Panicked (IndexOutOfRange 1 1))) \<and>
    (repo_FindByUserID d uid (w_state w) = (Inr prs, sb) \<and> pr \<in> set prs \<and>
     GetBuyerProductRequestsByUserID d uid w = (outb, wb) \<and>
     (\<forall>ev\<in>set (calls_since w wb). \<not> is_signer_error ev) \<longrightarrow>
       outb = Inl (Panicked (IndexOutOfRange 1 1))) \<and>
    (repo_FindPaginatedProductRequests d page limit (w_state w) = (Inr (prs, totalRows), sc) \<and>
     pr \<in> set prs \<and> limit \<noteq> 0 \<and>
     GetPaginatedProductRequests d page limit w = (outc, wc) \<and>
     (\<forall>ev\<in>set (calls_since w wc). \<not> is_signer_error ev) \<longrightarrow>
       outc = Inl (Panicked (IndexOutOfRange 1 1)))"
proof (intro conjI impI)
  assume "getUrls d pr w = (out, w') \<and> (\<forall>ev\<in>set (calls_since w w'). \<not> is_signer_error ev)"
  then show "out = Inl (Panicked (IndexOutOfRange 1 1))"
    using getUrls_malformed [OF bad parse] by blast
next
  assume "repo_FindByID d id' (w_state w) = (Inr pr, sa) \<and>
     GetDetailByID d id' w = (outa, wa) \<and>
     (\<forall>ev\<in>set (calls_since w wa). \<not> is_signer_error ev)"
  then show "outa = Inl (Panicked (IndexOutOfRange 1 1))"
    using detail_malformed [OF bad parse] by blast
next
  assume "repo_FindByUserID d uid (w_state w) = (Inr prs, sb) \<and> pr \<in> set prs \<and>
     GetBuyerProductRequestsByUserID d uid w = (outb, wb) \<and>
     (\<forall>ev\<in>set (calls_since w wb). \<not> is_signer_error ev)"
  then show "outb = Inl (Panicked (IndexOutOfRange 1 1))"
    using buyer_malformed [OF _ bad parse] by blast
next
  assume "repo_FindPaginatedProductRequests d page limit (w_state w) = (Inr (prs, totalRows), sc) \<and>
     pr \<in> set prs \<and> limit \<noteq> 0 \<and>
     GetPaginatedProductRequests d page limit w = (outc, wc) \<and>
     (\<forall>ev\<in>set (calls_since w wc). \<not> is_signer_error ev)"
  then show "outc = Inl (Panicked (IndexOutOfRange 1 1))"
    using paginated_malformed [OF _ bad parse] by blast
qed

theorem malformed_uri_panics_witness:
  "''images/b.png'' \<in> set (pr_Images request9) \<and>
   \<not> sublist ''hewpao-s3/'' ''images/b.png'' \<and>
   time_ParseDuration (mem_service cfg0) (cfg_S3Expiration (cfg (mem_service cfg0)))
     = Inr (15 * Minute) \<and>
   fst (getUrls (mem_service cfg0) request9 (mem_of [request7, request9] None))
     = Inl (Panicked (IndexOutOfRange 1 1)) \<and>
   fst (GetDetailByID (mem_service cfg0) 9 (mem_of [request7, request9] None))
     = Inl (Panicked (IndexOutOfRange 1 1)) \<and>
   fst (GetBuyerProductRequestsByUserID (mem_service cfg0) ''b1'' (mem_of [request7, request9] None))
     = Inl (Panicked (IndexOutOfRange 1 1)) \<and>
   fst (GetPaginatedProductRequests (mem_service cfg0) 1 10 (mem_of [request7, request9] None))
     = Inl (Panicked (IndexOutOfRange 1 1))"
proof -
  let ?d = "mem_service cfg0"
  let ?w = "mem_of [request7, request9] None"
  note ev = getUrls_def GetDetailByID_def GetBuyerProductRequestsByUserID_def
    GetPaginatedProductRequests_def mem_service_sel parse_15m_def cfg0_def request9_def
    request7_def SplitN_def andThen_def index_at_def call_val_def ret_def go_panic_def
    go_div_def mem_GetSignedURL_def mem_of_def mem_FindByID_def mem_FindByUserID_def
    mem_FindPaginated_def calls_since_def Let_def
  have bad: "''images/b.png'' \<in> set (pr_Images request9)"
    by (simp add: request9_def)
  have parse: "time_ParseDuration ?d (cfg_S3Expiration (cfg ?d)) = Inr (15 * Minute)"
    by (simp add: mem_service_sel parse_15m_def cfg0_def)
  have find: "repo_FindByID ?d 9 (w_state ?w) = (Inr request9, w_state ?w)"
    by (simp add: ev)
  have mine: "repo_FindByUserID ?d ''b1'' (w_state ?w) = (Inr [request7, request9], w_state ?w)"
    by (simp add: ev)
  have page: "repo_FindPaginatedProductRequests ?d 1 10 (w_state ?w)
                = (Inr ([request7, request9], 2), w_state ?w)"
    by (simp add: mem_service_sel mem_FindPaginated_def mem_of_def)
  have q1: "\<forall>ev\<in>set (calls_since ?w (snd (getUrls ?d request9 ?w))). \<not> is_signer_error ev"
    by (simp add: ev)
  have q2: "\<forall>ev\<in>set (calls_since ?w (snd (GetDetailByID ?d 9 ?w))). \<not> is_signer_error ev"
    by (simp add: ev)
  have q3: "\<forall>ev\<in>set (calls_since ?w (snd (GetBuyerProductRequestsByUserID ?d ''b1'' ?w))).
              \<not> is_signer_error ev"
    by (simp add: ev)
  have q4: "\<forall>ev\<in>set (calls_since ?w (snd (GetPaginatedProductRequests ?d 1 10 ?w))).
              \<not> is_signer_error ev"
    by (simp add: ev)
  note T = malformed_uri_panics [OF bad no_separator_in_b parse,
      where w = ?w and out = "fst (getUrls ?d request9 ?w)" and w' = "snd (getUrls ?d request9 ?w)"
      and id' = 9 and sa = "w_state ?w"
      and outa = "fst (GetDetailByID ?d 9 ?w)" and wa = "snd (GetDetailByID ?d 9 ?w)"
      and uid = "''b1''" and prs = "[request7, request9]" and sb = "w_state ?w"
      and outb = "fst (GetBuyerProductRequestsByUserID ?d ''b1'' ?w)"
      and wb = "snd (GetBuyerProductRequestsByUserID ?d ''b1'' ?w)"
      and page = 1 and limit = 10 and totalRows = 2 and sc = "w_state ?w"
      and outc = "fst (GetPaginatedProductRequests ?d 1 10 ?w)"
      and wc = "snd (GetPaginatedProductRequests ?d 1 10 ?w)"]
  have a: "fst (getUrls ?d request9 ?w) = Inl (Panicked (IndexOutOfRange 1 1))"
    using T q1 by simp
  have b: "fst (GetDetailByID ?d 9 ?w) = Inl (Panicked (IndexOutOfRange 1 1))"
    using T find q2 by simp
  have c: "fst (GetBuyerProductRequestsByUserID ?d ''b1'' ?w) = Inl (Panicked (IndexOutOfRange 1 1))"
    using T mine q3 by simp
  have e: "fst (GetPaginatedProductRequests ?d 1 10 ?w) = Inl (Panicked (IndexOutOfRange 1 1))"
    using T page q4 by simp
  from bad no_separator_in_b parse a b c e show ?thesis by blast
qed

text \<open>
  The claim as stated, without the two conditions, does not hold: with an expiration that
  does not parse, the resolution of a request with such an image returns the parse error
  as an error value before it looks at any image, and \<open>GetDetailByID\<close> returns it too.
\<close>

theorem malformed_uri_returns_error:
  "''images/b.png'' \<in> set (pr_Images request9) \<and>
   \<not> sublist ''hewpao-s3/'' ''images/b.png'' \<and>
   getUrls (mem_service cfg_unparsed) request9 (mem_of [request9] None)
     = (Inl (Returned (OtherError ''time: invalid duration'')), mem_of [request9] None) \<and>
   GetDetailByID (mem_service cfg_unparsed) 9 (mem_of [request9] None)
     = (Inl (Returned (OtherError ''time: invalid duration'')),
        \<lparr>w_state = w_state (mem_of [request9] None),
         w_calls = [Call_repo_FindByID 9 (Inr request9)]\<rparr>)"
  by (simp add: no_separator_in_b)
     (simp add: request9_def request7_def getUrls_def GetDetailByID_def mem_service_sel
      cfg_unparsed_def parse_15m_def return_err_def andThen_def call_val_def
      mem_FindByID_def mem_of_def)

text \<open>Runs in which every image has the separator and no signing fails.\<close>

lemma calls_since_exact:
  "w_calls w' = w_calls w @ evs \<Longrightarrow> w_calls w' = w_calls w @ calls_since w w'"
  by (simp add: calls_since_def)

lemma getUrls_loop_panic_cause:
  assumes "getUrls_loop d dur imgs acc w = (Inl (Panicked p), w')"
  shows "\<exists>img\<in>set imgs. \<not> sublist ''hewpao-s3/'' img"
  using assms
proof (induction imgs arbitrary: acc w)
  case Nil
  then show ?case by (simp add: ret_def)
next
  case (Cons img imgs)
  show ?case
  proof (cases "sublist ''hewpao-s3/'' img")
    case False
    then show ?thesis by auto
  next
    case True
    then obtain before after where fs: "first_split ''hewpao-s3/'' img before after"
      using split_with_separator [of "''hewpao-s3/''" img] by auto
    obtain r s' where sign:
      "minioRepo_GetSignedURL d (cfg_S3BucketName (cfg d)) after dur (w_state w) = (r, s')"
      by (cases "minioRepo_GetSignedURL d (cfg_S3BucketName (cfg d)) after dur (w_state w)")
    note step = getUrls_loop_with_separator [OF fs sign, of imgs acc]
    show ?thesis
    proof (cases r)
      case (Inl e)
      with Cons.prems step show ?thesis by simp
    next
      case (Inr url)
      with Cons.prems step obtain w1 where
        "getUrls_loop d dur imgs (acc @ [url]) w1 = (Inl (Panicked p), w')"
        by simp
      from Cons.IH [OF this] show ?thesis by auto
    qed
  qed
qed

lemma getUrls_loop_reaches:
  assumes "getUrls_loop d dur imgs acc w = (out, w')"
    and "w_calls w' = w_calls w @ evs"
    and "i < length imgs"
    and "\<forall>j\<le>i. sublist ''hewpao-s3/'' (imgs ! j)"
    and "\<forall>ev\<in>set (take i evs). \<not> is_signer_error ev"
  shows "i < length evs"
  using assms
proof (induction imgs arbitrary: acc w evs i)
  case Nil
  then show ?case by simp
next
  case (Cons img imgs)
  from Cons.prems(4) have "sublist ''hewpao-s3/'' img" by force
  then obtain before after where fs: "first_split ''hewpao-s3/'' img before after"
    using split_with_separator [of "''hewpao-s3/''" img] by auto
  obtain r s' where sign:
    "minioRepo_GetSignedURL d (cfg_S3BucketName (cfg d)) after dur (w_state w) = (r, s')"
    by (cases "minioRepo_GetSignedURL d (cfg_S3BucketName (cfg d)) after dur (w_state w)")
  let ?ev = "Call_minioRepo_GetSignedURL (cfg_S3BucketName (cfg d)) after dur r"
  let ?w1 = "\<lparr>w_state = s', w_calls = w_calls w @ [?ev]\<rparr>"
  note step = getUrls_loop_with_separator [OF fs sign, of imgs acc]
  show ?case
  proof (cases r)
    case (Inl e)
    with Cons.prems(1) step have "w_calls w' = w_calls w @ [?ev]" by auto
    with Cons.prems(2) have evs: "evs = [?ev]" by simp
    show ?thesis
    proof (cases i)
      case 0
      then show ?thesis using evs by simp
    next
      case (Suc k)
      then have "?ev \<in> set (take i evs)" using evs by simp
      with Cons.prems(5) Inl show ?thesis by auto
    qed
  next
    case (Inr url)
    with Cons.prems(1) step have run: "getUrls_loop d dur imgs (acc @ [url]) ?w1 = (out, w')"
      by simp
    from getUrls_loop_calls [OF run] obtain evs' where c: "w_calls w' = w_calls ?w1 @ evs'"
      by blast
    with Cons.prems(2) have evs: "evs = ?ev # evs'" by simp
    show ?thesis
    proof (cases i)
      case 0
      then show ?thesis using evs by simp
    next
      case (Suc k)
      have a: "k < length imgs" using Cons.prems(3) Suc by simp
      have b: "\<forall>j\<le>k. sublist ''hewpao-s3/'' (imgs ! j)"
      proof (intro allI impI)
        fix j assume "j \<le> k"
        then have "Suc j \<le> i" using Suc by simp
        with Cons.prems(4) have "sublist ''hewpao-s3/'' ((img # imgs) ! Suc j)" by blast
        then show "sublist ''hewpao-s3/'' (imgs ! j)" by simp
      qed
      have e: "\<forall>ev\<in>set (take k evs'). \<not> is_signer_error ev"
        using Cons.prems(5) Suc evs by simp
      from Cons.IH [OF run c a b e] show ?thesis using Suc evs by simp
    qed
  qed
qed

lemma getUrls_reaches:
  assumes parse: "time_ParseDuration d (cfg_S3Expiration (cfg d)) = Inr dur"
    and run: "getUrls d pr w = (out, w')"
    and i: "i < length (pr_Images pr)"
    and wf: "\<forall>j\<le>i. sublist ''hewpao-s3/'' (pr_Images pr ! j)"
    and quiet: "\<forall>ev\<in>set (take i (calls_since w w')). \<not> is_signer_error ev"
  shows "\<exists>before after r. first_split ''hewpao-s3/'' (pr_Images pr ! i) before after \<and>
           calls_since w w' ! i = Call_minioRepo_GetSignedURL (cfg_S3BucketName (cfg d)) after dur r"
proof -
  from run parse have l: "getUrls_loop d dur (pr_Images pr) [] w = (out, w')"
    by (simp add: getUrls_def)
  from getUrls_extends_calls [OF run] obtain evs where "w_calls w' = w_calls w @ evs" by blast
  then have c: "w_calls w' = w_calls w @ calls_since w w'" by (rule calls_since_exact)
  from getUrls_loop_reaches [OF l c i wf quiet] have "i < length (calls_since w w')" .
  with getUrls_calls [OF run parse] show ?thesis by blast
qed

lemma getUrls_signs_all:
  assumes parse: "time_ParseDuration d (cfg_S3Expiration (cfg d)) = Inr dur"
    and wf: "\<forall>img\<in>set (pr_Images pr). sublist ''hewpao-s3/'' img"
    and run: "getUrls d pr w = (out, w')"
    and quiet: "\<forall>ev\<in>set (calls_since w w'). \<not> is_signer_error ev"
  shows "\<exists>urls. out = Inr urls \<and> signed_as d dur (pr_Images pr) (calls_since w w') urls"
proof -
  from run parse have l: "getUrls_loop d dur (pr_Images pr) [] w = (out, w')"
    by (simp add: getUrls_def)
  from getUrls_failure [OF parse run] obtain evs where
    c: "w_calls w' = w_calls w @ evs"
    and err: "\<forall>e. out = Inl (Returned e) \<longrightarrow> (\<exists>ev\<in>set evs. is_signer_error ev)"
    by blast
  have cs: "calls_since w w' = evs" by (rule calls_since_append [OF c])
  have no_err: "out \<noteq> Inl (Returned e)" for e
    using err quiet cs by blast
  have no_panic: "out \<noteq> Inl (Panicked p)" for p
  proof
    assume "out = Inl (Panicked p)"
    with l have "\<exists>img\<in>set (pr_Images pr). \<not> sublist ''hewpao-s3/'' img"
      by (auto dest: getUrls_loop_panic_cause)
    with wf show False by blast
  qed
  obtain urls where out: "out = Inr urls"
  proof (cases out)
    case (Inl f)
    then show ?thesis using no_err no_panic by (cases f) auto
  next
    case (Inr urls)
    then show ?thesis by (rule that)
  qed
  from getUrls_calls [OF run parse] out
  have "signed_as d dur (pr_Images pr) (calls_since w w') urls"
    unfolding signed_as_def by blast
  with out show ?thesis by blast
qed

lemma quiet_earlier:
  assumes "w_calls w1 = w_calls w @ a" and "w_calls w' = w_calls w1 @ b"
    and "\<forall>ev\<in>set (calls_since w w'). \<not> P ev"
  shows "\<forall>ev\<in>set (calls_since w w1). \<not> P ev"
proof -
  have "calls_since w w' = a @ b" using assms(1,2) by (simp add: calls_since_def)
  moreover have "calls_since w w1 = a" using assms(1) by (simp add: calls_since_def)
  ultimately show ?thesis using assms(3) by simp
qed

lemma detail_signs_all:
  fixes d :: "'s service"
  assumes parse: "time_ParseDuration d (cfg_S3Expiration (cfg d)) = Inr dur"
    and wf: "\<forall>img\<in>set (pr_Images pr). sublist ''hewpao-s3/'' img"
    and find: "repo_FindByID d id' (w_state w) = (Inr pr, s1)"
    and run: "GetDetailByID d id' w = (out, w')"
    and quiet: "\<forall>ev\<in>set (calls_since w w'). \<not> is_signer_error ev"
  shows "\<exists>res evs. out = Inr res \<and>
           calls_since w w' = Call_repo_FindByID id' (Inr pr) # evs \<and>
           signed_as d dur (pr_Images pr) evs (dto_Images res)"
proof -
  let ?w1 = "\<lparr>w_state = s1, w_calls = w_calls w @ [Call_repo_FindByID id' (Inr pr)]\<rparr>"
  obtain o1 w1' where g: "getUrls d pr ?w1 = (o1, w1')"
    by (cases "getUrls d pr ?w1")
  from run find g have out: "out = (case o1 of Inl f \<Rightarrow> Inl f | Inr urls \<Rightarrow> Inr
       \<lparr>dto_ID = pr_ID pr, dto_Desc = pr_Desc pr, dto_Category = pr_Category pr,
        dto_Images = urls, dto_Budget = pr_Budget pr, dto_Quantity = pr_Quantity pr,
        dto_UserID = pr_UserID pr, dto_Offers = pr_Offers pr,
        dto_Transactions = pr_Transactions pr, dto_CreatedAt = pr_CreatedAt pr,
        dto_UpdatedAt = pr_UpdatedAt pr,
        dto_DeletedAt = Some (da_Time (pr_DeletedAt pr))\<rparr>)" and w': "w' = w1'"
    by (auto simp add: GetDetailByID_def andThen_def call_val_def ret_def split: sum.splits)
  from getUrls_extends_calls [OF g] obtain evs where e: "w_calls w1' = w_calls ?w1 @ evs"
    by blast
  have cs1: "calls_since ?w1 w1' = evs" by (rule calls_since_append [OF e])
  have cs: "calls_since w w' = Call_repo_FindByID id' (Inr pr) # evs"
    using e w' by (simp add: calls_since_def)
  have "\<forall>ev\<in>set (calls_since ?w1 w1'). \<not> is_signer_error ev"
    by (rule quiet_later [OF _ e, of w "[Call_repo_FindByID id' (Inr pr)]"])
       (use quiet w' in simp_all)
  from getUrls_signs_all [OF parse wf g this] obtain urls where
    "o1 = Inr urls" and "signed_as d dur (pr_Images pr) evs urls"
    unfolding cs1 by blast
  then show ?thesis using out cs by simp
qed

lemma detail_loop_signs_all:
  assumes parse: "time_ParseDuration d (cfg_S3Expiration (cfg d)) = Inr dur"
    and wf: "\<forall>pr\<in>set prs. \<forall>img\<in>set (pr_Images pr). sublist ''hewpao-s3/'' img"
    and run: "detail_loop d prs acc w = (out, w')"
    and quiet: "\<forall>ev\<in>set (calls_since w w'). \<not> is_signer_error ev"
  shows "\<exists>new segs. out = Inr (acc @ new) \<and> calls_since w w' = concat segs \<and>
           length new = length prs \<and> length segs = length prs \<and>
           (\<forall>j<length prs. signed_as d dur (pr_Images (prs ! j)) (segs ! j) (dto_Images (new ! j)))"
  using wf run quiet
proof (induction prs arbitrary: acc w)
  case Nil
  then have "out = Inr acc" and "w' = w" by (simp_all add: ret_def)
  then show ?case
    by (intro exI [of _ "[]"]) (simp add: calls_since_def)
next
  case (Cons pr rest)
  obtain o1 w1 where g: "getUrls d pr w = (o1, w1)"
    by (cases "getUrls d pr w")
  from getUrls_extends_calls [OF g] obtain evs1 where c1: "w_calls w1 = w_calls w @ evs1"
    by blast
  have cs1: "calls_since w w1 = evs1" by (rule calls_since_append [OF c1])
  have wf1: "\<forall>img\<in>set (pr_Images pr). sublist ''hewpao-s3/'' img"
    and wf2: "\<forall>pr\<in>set rest. \<forall>img\<in>set (pr_Images pr). sublist ''hewpao-s3/'' img"
    using Cons.prems(1) by simp_all
  show ?case
  proof (cases o1)
    case (Inl f)
    with Cons.prems(2) g have o: "out = Inl f" and w': "w' = w1"
      by (simp_all add: andThen_def)
    from getUrls_signs_all [OF parse wf1 g] Cons.prems(3) w' Inl show ?thesis by auto
  next
    case (Inr urls)
    let ?dto = "\<lparr>dto_ID = pr_ID pr, dto_Desc = pr_Desc pr, dto_Category = pr_Category pr,
         dto_Images = urls, dto_Budget = pr_Budget pr, dto_Quantity = pr_Quantity pr,
         dto_UserID = pr_UserID pr, dto_Offers = pr_Offers pr, dto_Transactions = [],
         dto_CreatedAt = pr_CreatedAt pr, dto_UpdatedAt = pr_UpdatedAt pr,
         dto_DeletedAt = Some (da_Time (pr_DeletedAt pr))\<rparr>"
    from Cons.prems(2) g Inr have l: "detail_loop d rest (acc @ [?dto]) w1 = (out, w')"
      by (simp add: andThen_def)
    from detail_loop_extends_calls [OF l] obtain evs2 where c2: "w_calls w' = w_calls w1 @ evs2"
      by blast
    have cs2: "calls_since w1 w' = evs2" by (rule calls_since_append [OF c2])
    have cs: "calls_since w w' = evs1 @ evs2" using c1 c2 by (simp add: calls_since_def)
    have q1: "\<forall>ev\<in>set (calls_since w w1). \<not> is_signer_error ev"
      by (rule quiet_earlier [OF c1 c2 Cons.prems(3)])
    have q2: "\<forall>ev\<in>set (calls_since w1 w'). \<not> is_signer_error ev"
      by (rule quiet_later [OF c1 c2 Cons.prems(3)])
    from getUrls_signs_all [OF parse wf1 g q1] Inr
    have s1: "signed_as d dur (pr_Images pr) evs1 urls"
      unfolding cs1 by simp
    from Cons.IH [OF wf2 l q2] obtain new segs where
      o: "out = Inr ((acc @ [?dto]) @ new)" and cc: "evs2 = concat segs"
      and ln: "length new = length rest" and ls: "length segs = length rest"
      and each: "\<forall>j<length rest. signed_as d dur (pr_Images (rest ! j)) (segs ! j) (dto_Images (new ! j))"
      unfolding cs2 by blast
    show ?thesis
      using o cc ln ls each s1 cs
      by (intro exI [of _ "?dto # new"] exI [of _ "evs1 # segs"]) (simp add: All_less_Suc2)
  qed
qed

lemma buyer_signs_all:
  fixes d :: "'s service"
  assumes parse: "time_ParseDuration d (cfg_S3Expiration (cfg d)) = Inr dur"
    and wf: "\<forall>pr\<in>set prs. \<forall>img\<in>set (pr_Images pr). sublist ''hewpao-s3/'' img"
    and find: "repo_FindByUserID d uid (w_state w) = (Inr prs, s1)"
    and run: "GetBuyerProductRequestsByUserID d uid w = (out, w')"
    and quiet: "\<forall>ev\<in>set (calls_since w w'). \<not> is_signer_error ev"
  shows "\<exists>res segs. out = Inr res \<and>
           calls_since w w' = Call_repo_FindByUserID uid (Inr prs) # concat segs \<and>
           length res = length prs \<and> length segs = length prs \<and>
           (\<forall>j<length prs. signed_as d dur (pr_Images (prs ! j)) (segs ! j) (dto_Images (res ! j)))"
proof -
  let ?w1 = "\<lparr>w_state = s1, w_calls = w_calls w @ [Call_repo_FindByUserID uid (Inr prs)]\<rparr>"
  from run find have l: "detail_loop d prs [] ?w1 = (out, w')"
    by (simp add: GetBuyerProductRequestsByUserID_def andThen_def call_val_def)
  from detail_loop_extends_calls [OF l] obtain evs where e: "w_calls w' = w_calls ?w1 @ evs"
    by blast
  have cs1: "calls_since ?w1 w' = evs" by (rule calls_since_append [OF e])
  have cs: "calls_since w w' = Call_repo_FindByUserID uid (Inr prs) # evs"
    using e by (simp add: calls_since_def)
  have "\<forall>ev\<in>set (calls_since ?w1 w'). \<not> is_signer_error ev"
    by (rule quiet_later [OF _ e, of w "[Call_repo_FindByUserID uid (Inr prs)]"])
       (use quiet in simp_all)
  from detail_loop_signs_all [OF parse wf l this] show ?thesis
    unfolding cs1 cs by auto
qed

lemma paginated_signs_all:
  fixes d :: "'s service"
  assumes parse: "time_ParseDuration d (cfg_S3Expiration (cfg d)) = Inr dur"
    and wf: "\<forall>pr\<in>set prs. \<forall>img\<in>set (pr_Images pr). sublist ''hewpao-s3/'' img"
    and find: "repo_FindPaginatedProductRequests d page limit (w_state w) = (Inr (prs, totalRows), s1)"
    and limit: "limit \<noteq> 0"
    and run: "GetPaginatedProductRequests d page limit w = (out, w')"
    and quiet: "\<forall>ev\<in>set (calls_since w w'). \<not> is_signer_error ev"
  shows "\<exists>res segs. out = Inr res \<and>
           calls_since w w' =
             Call_repo_FindPaginatedProductRequests page limit (Inr (prs, totalRows)) # concat segs \<and>
           length (pg_Data res) = length prs \<and> length segs = length prs \<and>
           (\<forall>j<length prs.
              signed_as d dur (pr_Images (prs ! j)) (segs ! j) (dto_Images (pg_Data res ! j)))"
proof -
  let ?w1 = "\<lparr>w_state = s1, w_calls = w_calls w @
     [Call_repo_FindPaginatedProductRequests page limit (Inr (prs, totalRows))]\<rparr>"
  obtain o1 w1' where l: "detail_loop d prs [] ?w1 = (o1, w1')"
    by (cases "detail_loop d prs [] ?w1")
  from run find limit l have out: "out = (case o1 of Inl f \<Rightarrow> Inl f | Inr dest \<Rightarrow> Inr
       \<lparr>pg_Data = dest, pg_Page = page, pg_Limit = limit, pg_TotalRows = totalRows,
        pg_TotalPages = word_of_int (sint (totalRows + limit - 1) sdiv sint limit)\<rparr>)"
    and w': "w' = w1'"
    by (auto simp add: GetPaginatedProductRequests_def andThen_def call_val_def go_div_def
        ret_def Let_def split: sum.splits)
  from detail_loop_extends_calls [OF l] obtain evs where e: "w_calls w1' = w_calls ?w1 @ evs"
    by blast
  have cs1: "calls_since ?w1 w1' = evs" by (rule calls_since_append [OF e])
  have cs: "calls_since w w' =
      Call_repo_FindPaginatedProductRequests page limit (Inr (prs, totalRows)) # evs"
    using e w' by (simp add: calls_since_def)
  have "\<forall>ev\<in>set (calls_since ?w1 w1'). \<not> is_signer_error ev"
    by (rule quiet_later [OF _ e, of w
          "[Call_repo_FindPaginatedProductRequests page limit (Inr (prs, totalRows))]"])
       (use quiet w' in simp_all)
  from detail_loop_signs_all [OF parse wf l this] obtain new segs where
    n: "o1 = Inr new" "evs = concat segs" "length new = length prs" "length segs = length prs"
    "\<forall>j<length prs. signed_as d dur (pr_Images (prs ! j)) (segs ! j) (dto_Images (new ! j))"
    unfolding cs1 by auto
  let ?res = "\<lparr>pg_Data = new, pg_Page = page, pg_Limit = limit, pg_TotalRows = totalRows,
        pg_TotalPages = word_of_int (sint (totalRows + limit - 1) sdiv sint limit)\<rparr>"
  have "out = Inr ?res" using out n(1) by simp
  then show ?thesis using cs n
    by (intro exI [of _ ?res] exI [of _ segs]) simp
qed

lemma separator_in_a: "sublist ''hewpao-s3/'' ''hewpao-s3/images/a.png''"
  using Index_None_iff [of "''hewpao-s3/images/a.png''" "''hewpao-s3/''"] by simp

text \<open>
  Claim C8, as amended. Let the configured expiration parse to \<open>dur\<close>. In every run of
  the URL resolution the calls are signings only, the \<open>k\<close>-th for the \<open>k\<close>-th stored
  image, each with the configured bucket name, the text after the first occurrence of
  \<^verbatim>\<open>"hewpao-s3/"\<close> in the image and \<open>dur\<close>. An image with the separator is signed in
  this way whenever the images before it have the separator too and their signings
  returned no error. When every image of the request has the separator and no signing of
  the run returns an error, the resolution returns the signer's URLs, one per image,
  unchanged and in order; they are the image list of the response of \<open>GetDetailByID\<close>
  for the request, and the image lists of the responses of
  \<open>GetBuyerProductRequestsByUserID\<close> and of \<open>GetPaginatedProductRequests\<close> (with a limit
  other than 0) when this holds of every request listed. In particular, for a request
  with the one image \<^verbatim>\<open>"hewpao-s3/images/a.png"\<close>, the bucket \<^verbatim>\<open>"hewpao-s3"\<close> and the
  expiration \<^verbatim>\<open>"15m"\<close> (which \<^verbatim>\<open>time.ParseDuration\<close> reads as 15 minutes),
  \<open>GetDetailByID\<close> looks the request up and calls the signer with the path
  \<^verbatim>\<open>"images/a.png"\<close> and 15 minutes, and the signer's URL is the image list of the
  response.
\<close>

theorem getUrls_signs_each_image:
  fixes d :: "'s service" and e :: "'t service"
  assumes parse: "time_ParseDuration d (cfg_S3Expiration (cfg d)) = Inr dur"
  shows
   "(getUrls d pr w = (out, w') \<longrightarrow>
      length (calls_since w w') \<le> length (pr_Images pr) \<and>
      (\<forall>k<length (calls_since w w'). \<exists>before after r.
          first_split ''hewpao-s3/'' (pr_Images pr ! k) before after \<and>
          calls_since w w' ! k = Call_minioRepo_GetSignedURL (cfg_S3BucketName (cfg d)) after dur r)) \<and>
    (getUrls d pr w = (out, w') \<and> i < length (pr_Images pr) \<and>
     (\<forall>j\<le>i. sublist ''hewpao-s3/'' (pr_Images pr ! j)) \<and>
     (\<forall>ev\<in>set (take i (calls_since w w')). \<not> is_signer_error ev) \<longrightarrow>
      (\<exists>before after r.
          first_split ''hewpao-s3/'' (pr_Images pr ! i) before after \<and>
          calls_since w w' ! i = Call_minioRepo_GetSignedURL (cfg_S3BucketName (cfg d)) after dur r)) \<and>
    (getUrls d pr w = (out, w') \<and>
     (\<forall>img\<in>set (pr_Images pr). sublist ''hewpao-s3/'' img) \<and>
     (\<forall>ev\<in>set (calls_since w w'). \<not> is_signer_error ev) \<longrightarrow>
      (\<exists>urls. out = Inr urls \<and> signed_as d dur (pr_Images pr) (calls_since w w') urls)) \<and>
    (repo_FindByID d id' (w_state w) = (Inr pr, sa) \<and>
     GetDetailByID d id' w = (outa, wa) \<and>
     (\<forall>img\<in>set (pr_Images pr). sublist ''hewpao-s3/'' img) \<and>
     (\<forall>ev\<in>set (calls_since w wa). \<not> is_signer_error ev) \<longrightarrow>
      (\<exists>res evs. outa = Inr res \<and>
          calls_since w wa = Call_repo_FindByID id' (Inr pr) # evs \<and>
          signed_as d dur (pr_Images pr) evs (dto_Images res))) \<and>
    (repo_FindByUserID d uid (w_state w) = (Inr prs, sb) \<and>
     GetBuyerProductRequestsByUserID d uid w = (outb, wb) \<and>
     (\<forall>p\<in>set prs. \<forall>img\<in>set (pr_Images p). sublist ''hewpao-s3/'' img) \<and>
     (\<forall>ev\<in>set (calls_since w wb). \<not> is_signer_error ev) \<longrightarrow>
      (\<exists>res segs. outb = Inr res \<and>
          calls_since w wb = Call_repo_FindByUserID uid (Inr prs) # concat segs \<and>
          length res = length prs \<and> length segs = length prs \<and>
          (\<forall>j<length prs.
             signed_as d dur (pr_Images (prs ! j)) (segs ! j) (dto_Images (res ! j))))) \<and>
    (repo_FindPaginatedProductRequests d page limit (w_state w) = (Inr (prs, totalRows), sc) \<and>
     limit \<noteq> 0 \<and>
     GetPaginatedProductRequests d page limit w = (outc, wc) \<and>
     (\<forall>p\<in>set prs. \<forall>img\<in>set (pr_Images p). sublist ''hewpao-s3/'' img) \<and>
     (\<forall>ev\<in>set (calls_since w wc). \<not> is_signer_error ev) \<longrightarrow>
      (\<exists>res segs. outc = Inr res \<and>
          calls_since w wc =
            Call_repo_FindPaginatedProductRequests page limit (Inr (prs, totalRows)) # concat segs \<and>
          length (pg_Data res) = length prs \<and> length segs = length prs \<and>
          (\<forall>j<length prs.
             signed_as d dur (pr_Images (prs ! j)) (segs ! j) (dto_Images (pg_Data res ! j))))) \<and>
    (repo_FindByID e ida (w_state v) = (Inr q, ta) \<and>
     pr_Images q = [''hewpao-s3/images/a.png''] \<and>
     cfg_S3BucketName (cfg e) = ''hewpao-s3'' \<and>
     cfg_S3Expiration (cfg e) = ''15m'' \<and>
     time_ParseDuration e ''15m'' = Inr (15 * Minute) \<and>
     minioRepo_GetSignedURL e ''hewpao-s3'' ''images/a.png'' (15 * Minute) ta = (r, tb) \<longrightarrow>
      w_calls (snd (GetDetailByID e ida v)) = w_calls v @
           [Call_repo_FindByID ida (Inr q),
            Call_minioRepo_GetSignedURL ''hewpao-s3'' ''images/a.png'' (15 * Minute) r] \<and>
      (\<forall>url. r = Inr url \<longrightarrow>
           (\<exists>res. fst (GetDetailByID e ida v) = Inr res \<and> dto_Images res = [url])))"
proof (intro conjI impI)
  assume "getUrls d pr w = (out, w')"
  from getUrls_calls [OF this parse]
  show "length (calls_since w w') \<le> length (pr_Images pr)"
    and "\<forall>k<length (calls_since w w'). \<exists>before after r.
          first_split ''hewpao-s3/'' (pr_Images pr ! k) before after \<and>
          calls_since w w' ! k = Call_minioRepo_GetSignedURL (cfg_S3BucketName (cfg d)) after dur r"
    by blast+
next
  assume h: "getUrls d pr w = (out, w') \<and> i < length (pr_Images pr) \<and>
     (\<forall>j\<le>i. sublist ''hewpao-s3/'' (pr_Images pr ! j)) \<and>
     (\<forall>ev\<in>set (take i (calls_since w w')). \<not> is_signer_error ev)"
  then have a: "getUrls d pr w = (out, w')" and b: "i < length (pr_Images pr)"
    and c: "\<forall>j\<le>i. sublist ''hewpao-s3/'' (pr_Images pr ! j)"
    and e: "\<forall>ev\<in>set (take i (calls_since w w')). \<not> is_signer_error ev"
    by blast+
  show "\<exists>before after r.
          first_split ''hewpao-s3/'' (pr_Images pr ! i) before after \<and>
          calls_since w w' ! i = Call_minioRepo_GetSignedURL (cfg_S3BucketName (cfg d)) after dur r"
    by (rule getUrls_reaches [OF parse a b c e])
next
  assume h: "getUrls d pr w = (out, w') \<and>
     (\<forall>img\<in>set (pr_Images pr). sublist ''hewpao-s3/'' img) \<and>
     (\<forall>ev\<in>set (calls_since w w'). \<not> is_signer_error ev)"
  then have a: "getUrls d pr w = (out, w')"
    and b: "\<forall>img\<in>set (pr_Images pr). sublist ''hewpao-s3/'' img"
    and c: "\<forall>ev\<in>set (calls_since w w'). \<not> is_signer_error ev"
    by blast+
  show "\<exists>urls. out = Inr urls \<and> signed_as d dur (pr_Images pr) (calls_since w w') urls"
    by (rule getUrls_signs_all [OF parse b a c])
next
  assume h: "repo_FindByID d id' (w_state w) = (Inr pr, sa) \<and>
     GetDetailByID d id' w = (outa, wa) \<and>
     (\<forall>img\<in>set (pr_Images pr). sublist ''hewpao-s3/'' img) \<and>
     (\<forall>ev\<in>set (calls_since w wa). \<not> is_signer_error ev)"
  then have a: "repo_FindByID d id' (w_state w) = (Inr pr, sa)"
    and b: "GetDetailByID d id' w = (outa, wa)"
    and c: "\<forall>img\<in>set (pr_Images pr). sublist ''hewpao-s3/'' img"
    and e: "\<forall>ev\<in>set (calls_since w wa). \<not> is_signer_error ev"
    by blast+
  show "\<exists>res evs. outa = Inr res \<and>
          calls_since w wa = Call_repo_FindByID id' (Inr pr) # evs \<and>
          signed_as d dur (pr_Images pr) evs (dto_Images res)"
    by (rule detail_signs_all [OF parse c a b e])
next
  assume h: "repo_FindByUserID d uid (w_state w) = (Inr prs, sb) \<and>
     GetBuyerProductRequestsByUserID d uid w = (outb, wb) \<and>
     (\<forall>p\<in>set prs. \<forall>img\<in>set (pr_Images p). sublist ''hewpao-s3/'' img) \<and>
     (\<forall>ev\<in>set (calls_since w wb). \<not> is_signer_error ev)"
  then have a: "repo_FindByUserID d uid (w_state w) = (Inr prs, sb)"
    and b: "GetBuyerProductRequestsByUserID d uid w = (outb, wb)"
    and c: "\<forall>p\<in>set prs. \<forall>img\<in>set (pr_Images p). sublist ''hewpao-s3/'' img"
    and e: "\<forall>ev\<in>set (calls_since w wb). \<not> is_signer_error ev"
    by blast+
  show "\<exists>res segs. outb = Inr res \<and>
          calls_since w wb = Call_repo_FindByUserID uid (Inr prs) # concat segs \<and>
          length res = length prs \<and> length segs = length prs \<and>
          (\<forall>j<length prs.
             signed_as d dur (pr_Images (prs ! j)) (segs ! j) (dto_Images (res ! j)))"
    by (rule buyer_signs_all [OF parse c a b e])
next
  assume h: "repo_FindPaginatedProductRequests d page limit (w_state w) = (Inr (prs, totalRows), sc) \<and>
     limit \<noteq> 0 \<and>
     GetPaginatedProductRequests d page limit w = (outc, wc) \<and>
     (\<forall>p\<in>set prs. \<forall>img\<in>set (pr_Images p). sublist ''hewpao-s3/'' img) \<and>
     (\<forall>ev\<in>set (calls_since w wc). \<not> is_signer_error ev)"
  then have a: "repo_FindPaginatedProductRequests d page limit (w_state w) = (Inr (prs, totalRows), sc)"
    and l: "limit \<noteq> 0"
    and b: "GetPaginatedProductRequests d page limit w = (outc, wc)"
    and c: "\<forall>p\<in>set prs. \<forall>img\<in>set (pr_Images p). sublist ''hewpao-s3/'' img"
    and e: "\<forall>ev\<in>set (calls_since w wc). \<not> is_signer_error ev"
    by blast+
  show "\<exists>res segs. outc = Inr res \<and>
          calls_since w wc =
            Call_repo_FindPaginatedProductRequests page limit (Inr (prs, totalRows)) # concat segs \<and>
          length (pg_Data res) = length prs \<and> length segs = length prs \<and>
          (\<forall>j<length prs.
             signed_as d dur (pr_Images (prs ! j)) (segs ! j) (dto_Images (pg_Data res ! j)))"
    by (rule paginated_signs_all [OF parse c a l b e])
next
  assume h: "repo_FindByID e ida (w_state v) = (Inr q, ta) \<and>
     pr_Images q = [''hewpao-s3/images/a.png''] \<and>
     cfg_S3BucketName (cfg e) = ''hewpao-s3'' \<and>
     cfg_S3Expiration (cfg e) = ''15m'' \<and>
     time_ParseDuration e ''15m'' = Inr (15 * Minute) \<and>
     minioRepo_GetSignedURL e ''hewpao-s3'' ''images/a.png'' (15 * Minute) ta = (r, tb)"
  then have a: "repo_FindByID e ida (w_state v) = (Inr q, ta)"
    and b: "pr_Images q = [''hewpao-s3/images/a.png'']"
    and c: "cfg_S3BucketName (cfg e) = ''hewpao-s3''"
    and f: "cfg_S3Expiration (cfg e) = ''15m''"
    and g: "time_ParseDuration e ''15m'' = Inr (15 * Minute)"
    and k: "minioRepo_GetSignedURL e ''hewpao-s3'' ''images/a.png'' (15 * Minute) ta = (r, tb)"
    by simp_all
  show "w_calls (snd (GetDetailByID e ida v)) = w_calls v @
           [Call_repo_FindByID ida (Inr q),
            Call_minioRepo_GetSignedURL ''hewpao-s3'' ''images/a.png'' (15 * Minute) r]"
    by (rule detail_scenario(1) [OF a b c f g k])
  show "\<forall>url. r = Inr url \<longrightarrow>
           (\<exists>res. fst (GetDetailByID e ida v) = Inr res \<and> dto_Images res = [url])"
    by (rule detail_scenario(2) [OF a b c f g k])
qed

theorem getUrls_signs_each_image_witness:
  "length (calls_since (mem_of [request7, request8_plain] None)
      (snd (getUrls (mem_service cfg0) request7 (mem_of [request7, request8_plain] None))))
     \<le> length (pr_Images request7) \<and>
   (\<exists>before after r.
      first_split ''hewpao-s3/'' (pr_Images request7 ! 0) before after \<and>
      calls_since (mem_of [request7, request8_plain] None)
        (snd (getUrls (mem_service cfg0) request7 (mem_of [request7, request8_plain] None))) ! 0
        = Call_minioRepo_GetSignedURL (cfg_S3BucketName (cfg (mem_service cfg0))) after
            (15 * Minute) r) \<and>
   (\<exists>urls.
      fst (getUrls (mem_service cfg0) request7 (mem_of [request7, request8_plain] None)) = Inr urls \<and>
      signed_as (mem_service cfg0) (15 * Minute) (pr_Images request7)
        (calls_since (mem_of [request7, request8_plain] None)
          (snd (getUrls (mem_service cfg0) request7 (mem_of [request7, request8_plain] None))))
        urls) \<and>
   (\<exists>res evs.
      fst (GetDetailByID (mem_service cfg0) 7 (mem_of [request7, request8_plain] None)) = Inr res \<and>
      calls_since (mem_of [request7, request8_plain] None)
        (snd (GetDetailByID (mem_service cfg0) 7 (mem_of [request7, request8_plain] None)))
        = Call_repo_FindByID 7 (Inr request7) # evs \<and>
      signed_as (mem_service cfg0) (15 * Minute) (pr_Images request7) evs (dto_Images res)) \<and>
   (\<exists>res segs.
      fst (GetBuyerProductRequestsByUserID (mem_service cfg0) ''b1''
             (mem_of [request7, request8_plain] None)) = Inr res \<and>
      length res = length [request7, request8_plain] \<and>
      length segs = length [request7, request8_plain] \<and>
      signed_as (mem_service cfg0) (15 * Minute) (pr_Images request7) (segs ! 0)
        (dto_Images (res ! 0))) \<and>
   (\<exists>res segs.
      fst (GetPaginatedProductRequests (mem_service cfg0) 1 10
             (mem_of [request7, request8_plain] None)) = Inr res \<and>
      length (pg_Data res) = length [request7, request8_plain] \<and>
      length segs = length [request7, request8_plain] \<and>
      signed_as (mem_service cfg0) (15 * Minute) (pr_Images request7) (segs ! 0)
        (dto_Images (pg_Data res ! 0))) \<and>
   w_calls (snd (GetDetailByID (mem_service cfg0) 7 (mem_of [request7, request8_plain] None)))
     = [Call_repo_FindByID 7 (Inr request7),
        Call_minioRepo_GetSignedURL ''hewpao-s3'' ''images/a.png'' (15 * Minute)
          (Inr ''https://s3.test/hewpao-s3/images/a.png'')] \<and>
   (\<exists>res. fst (GetDetailByID (mem_service cfg0) 7 (mem_of [request7, request8_plain] None)) = Inr res \<and>
      dto_Images res = [''https://s3.test/hewpao-s3/images/a.png''])"
proof -
  let ?d = "mem_service cfg0"
  let ?w = "mem_of [request7, request8_plain] None"
  let ?prs = "[request7, request8_plain]"
  let ?url = "''https://s3.test/hewpao-s3/images/a.png''"
  let ?G = "getUrls ?d request7 ?w"
  let ?D = "GetDetailByID ?d 7 ?w"
  let ?B = "GetBuyerProductRequestsByUserID ?d ''b1'' ?w"
  let ?P = "GetPaginatedProductRequests ?d 1 10 ?w"
  note ev = getUrls_def GetDetailByID_def GetBuyerProductRequestsByUserID_def
    GetPaginatedProductRequests_def mem_service_sel parse_15m_def cfg0_def request8_plain_def
    request7_def SplitN_def andThen_def index_at_def call_val_def ret_def go_panic_def
    go_div_def mem_GetSignedURL_def mem_of_def mem_FindByID_def mem_FindByUserID_def
    mem_FindPaginated_def calls_since_def Let_def
  have parse: "time_ParseDuration ?d (cfg_S3Expiration (cfg ?d)) = Inr (15 * Minute)"
    by (simp add: mem_service_sel parse_15m_def cfg0_def)
  have imgs: "pr_Images request7 = [''hewpao-s3/images/a.png'']"
    by (simp add: request7_def)
  have wf: "\<forall>img\<in>set (pr_Images request7). sublist ''hewpao-s3/'' img"
    by (simp add: imgs separator_in_a)
  have wfs: "\<forall>p\<in>set ?prs. \<forall>img\<in>set (pr_Images p). sublist ''hewpao-s3/'' img"
    using wf by (simp add: request8_plain_def)
  have i0: "0 < length (pr_Images request7)"
    and upto: "\<forall>j\<le>0. sublist ''hewpao-s3/'' (pr_Images request7 ! j)"
    by (simp_all add: imgs separator_in_a)
  have runG: "?G = (fst ?G, snd ?G)" and runD: "?D = (fst ?D, snd ?D)"
    and runB: "?B = (fst ?B, snd ?B)" and runP: "?P = (fst ?P, snd ?P)"
    by simp_all
  have find: "repo_FindByID ?d 7 (w_state ?w) = (Inr request7, w_state ?w)"
    by (simp add: ev)
  have mine: "repo_FindByUserID ?d ''b1'' (w_state ?w) = (Inr ?prs, w_state ?w)"
    by (simp add: ev)
  have page: "repo_FindPaginatedProductRequests ?d 1 10 (w_state ?w) = (Inr (?prs, 2), w_state ?w)"
    by (simp add: mem_service_sel mem_FindPaginated_def mem_of_def)
  have ten: "(10 :: go_int) \<noteq> 0" by simp
  have q0: "\<forall>ev\<in>set (take 0 (calls_since ?w (snd ?G))). \<not> is_signer_error ev"
    by simp
  have qG: "\<forall>ev\<in>set (calls_since ?w (snd ?G)). \<not> is_signer_error ev"
    by (simp add: ev)
  have qD: "\<forall>ev\<in>set (calls_since ?w (snd ?D)). \<not> is_signer_error ev"
    by (simp add: ev)
  have qB: "\<forall>ev\<in>set (calls_since ?w (snd ?B)). \<not> is_signer_error ev"
    by (simp add: ev)
  have qP: "\<forall>ev\<in>set (calls_since ?w (snd ?P)). \<not> is_signer_error ev"
    by (simp add: ev)
  have bucket: "cfg_S3BucketName (cfg ?d) = ''hewpao-s3''"
    and ttl: "cfg_S3Expiration (cfg ?d) = ''15m''"
    and p15: "time_ParseDuration ?d ''15m'' = Inr (15 * Minute)"
    by (simp_all add: mem_service_sel cfg0_def parse_15m_def)
  have sign: "minioRepo_GetSignedURL ?d ''hewpao-s3'' ''images/a.png'' (15 * Minute) (w_state ?w)
                = (Inr ?url, w_state ?w)"
    by (simp add: mem_service_sel mem_GetSignedURL_def)
  note T = getUrls_signs_each_image [OF parse,
      where pr = request7 and w = ?w and out = "fst ?G" and w' = "snd ?G" and i = 0
      and id' = 7 and sa = "w_state ?w" and outa = "fst ?D" and wa = "snd ?D"
      and uid = "''b1''" and prs = ?prs and sb = "w_state ?w"
      and outb = "fst ?B" and wb = "snd ?B"
      and page = 1 and limit = 10 and totalRows = 2 and sc = "w_state ?w"
      and outc = "fst ?P" and wc = "snd ?P"
      and e = ?d and ida = 7 and v = ?w and q = request7 and ta = "w_state ?w"
      and r = "Inr ?url" and tb = "w_state ?w"]
  from T runG have a: "length (calls_since ?w (snd ?G)) \<le> length (pr_Images request7)"
    by blast
  from T runG i0 upto q0 have b: "\<exists>before after r.
      first_split ''hewpao-s3/'' (pr_Images request7 ! 0) before after \<and>
      calls_since ?w (snd ?G) ! 0
        = Call_minioRepo_GetSignedURL (cfg_S3BucketName (cfg ?d)) after (15 * Minute) r"
    by blast
  from T runG wf qG have c: "\<exists>urls. fst ?G = Inr urls \<and>
      signed_as ?d (15 * Minute) (pr_Images request7) (calls_since ?w (snd ?G)) urls"
    by blast
  from T find runD wf qD have dd: "\<exists>res evs. fst ?D = Inr res \<and>
      calls_since ?w (snd ?D) = Call_repo_FindByID 7 (Inr request7) # evs \<and>
      signed_as ?d (15 * Minute) (pr_Images request7) evs (dto_Images res)"
    by blast
  from T mine runB wfs qB have "\<exists>res segs. fst ?B = Inr res \<and>
      calls_since ?w (snd ?B) = Call_repo_FindByUserID ''b1'' (Inr ?prs) # concat segs \<and>
      length res = length ?prs \<and> length segs = length ?prs \<and>
      (\<forall>j<length ?prs. signed_as ?d (15 * Minute) (pr_Images (?prs ! j)) (segs ! j)
          (dto_Images (res ! j)))"
    by blast
  then have bb: "\<exists>res segs. fst ?B = Inr res \<and>
      length res = length ?prs \<and> length segs = length ?prs \<and>
      signed_as ?d (15 * Minute) (pr_Images request7) (segs ! 0) (dto_Images (res ! 0))"
    by fastforce
  from T page ten runP wfs qP have "\<exists>res segs. fst ?P = Inr res \<and>
      calls_since ?w (snd ?P) =
        Call_repo_FindPaginatedProductRequests 1 10 (Inr (?prs, 2)) # concat segs \<and>
      length (pg_Data res) = length ?prs \<and> length segs = length ?prs \<and>
      (\<forall>j<length ?prs. signed_as ?d (15 * Minute) (pr_Images (?prs ! j)) (segs ! j)
          (dto_Images (pg_Data res ! j)))"
    by blast
  then have pp: "\<exists>res segs. fst ?P = Inr res \<and>
      length (pg_Data res) = length ?prs \<and> length segs = length ?prs \<and>
      signed_as ?d (15 * Minute) (pr_Images request7) (segs ! 0) (dto_Images (pg_Data res ! 0))"
    by fastforce
  from T find imgs bucket ttl p15 sign have scenario:
    "w_calls (snd ?D) = w_calls ?w @ [Call_repo_FindByID 7 (Inr request7),
        Call_minioRepo_GetSignedURL ''hewpao-s3'' ''images/a.png'' (15 * Minute) (Inr ?url)]"
    "\<exists>res. fst ?D = Inr res \<and> dto_Images res = [?url]"
    by blast+
  have "w_calls ?w = []" by (simp add: mem_of_def)
  with scenario have s1: "w_calls (snd ?D) = [Call_repo_FindByID 7 (Inr request7),
        Call_minioRepo_GetSignedURL ''hewpao-s3'' ''images/a.png'' (15 * Minute) (Inr ?url)]"
    by simp
  from a b c dd bb pp s1 scenario(2) show ?thesis by blast
qed

text \<open>
  The claim as stated, for every stored image with the separator, does not hold: with an
  expiration that does not parse, the resolution returns the parse error and calls the
  signer for no image, and \<open>GetDetailByID\<close> returns that error after the lookup alone;
  and an image with the separator that stands behind one without it is never signed,
  because the resolution panics at the earlier image.
\<close>

theorem wellformed_uri_not_signed:
  "sublist ''hewpao-s3/'' ''hewpao-s3/images/a.png'' \<and>
   pr_Images request7 = [''hewpao-s3/images/a.png''] \<and>
   getUrls (mem_service cfg_unparsed) request7 (mem_of [request7] None)
     = (Inl (Returned (OtherError ''time: invalid duration'')), mem_of [request7] None) \<and>
   GetDetailByID (mem_service cfg_unparsed) 7 (mem_of [request7] None)
     = (Inl (Returned (OtherError ''time: invalid duration'')),
        \<lparr>w_state = w_state (mem_of [request7] None),
         w_calls = [Call_repo_FindByID 7 (Inr request7)]\<rparr>) \<and>
   pr_Images request10 = [''images/b.png'', ''hewpao-s3/images/a.png''] \<and>
   getUrls (mem_service cfg0) request10 (mem_of [request10] None)
     = (Inl (Panicked (IndexOutOfRange 1 1)), mem_of [request10] None)"
  by (simp add: separator_in_a)
     (simp add: request10_def request7_def getUrls_def GetDetailByID_def mem_service_sel
      cfg_unparsed_def cfg0_def parse_15m_def return_err_def andThen_def call_val_def
      mem_FindByID_def mem_of_def SplitN_def index_at_def go_panic_def)

section \<open>CreateProductRequest\<close>

lemma uris_loop_map:
  "uris_loop uploadInfos uris = uris @ map (\<lambda>u. ui_Bucket u @ ''/'' @ ui_Key u) uploadInfos"
  by (induction uploadInfos arbitrary: uris) simp_all

lemma upload_loop_trace:
  assumes "upload_loop d files readers i acc w = (out, w')"
  shows "\<exists>evs. w_calls w' = w_calls w @ evs \<and>
      (\<forall>ev\<in>set evs. \<not> is_Create ev) \<and>
      (\<forall>err. (\<exists>ev\<in>set evs. is_failed_upload err ev) \<longrightarrow> out = Inl (Returned err)) \<and>
      (\<forall>infos. out = Inr infos \<longrightarrow>
         (\<exists>new. infos = acc @ new \<and> length new = length files \<and>
            length files \<le> length readers - i \<and>
            evs = map (\<lambda>(f, rd, u).
                    Call_minioRepo_UploadFile (fh_Filename f) rd (fh_Size f)
                      (Header_Get (fh_Header f) ''Content-Type'') ''product-request-images'' (Inr u))
                  (zip files (zip (drop i readers) new))))"
  using assms
proof (induction files arbitrary: i acc w)
  case Nil
  then show ?case by (auto simp add: ret_def)
next
  case (Cons fileHeader files)
  show ?case
  proof (cases "i < length readers")
    case False
    with Cons.prems have "out = Inl (Panicked (IndexOutOfRange i (length readers)))" and "w' = w"
      by (simp_all add: andThen_def index_at_def go_panic_def)
    then show ?thesis by (intro exI [of _ "[]"]) simp
  next
    case True
    let ?rd = "readers ! i"
    let ?ct = "Header_Get (fh_Header fileHeader) ''Content-Type''"
    obtain r s' where up:
      "minioRepo_UploadFile d (fh_Filename fileHeader) ?rd (fh_Size fileHeader) ?ct ''product-request-images''
         (w_state w) = (r, s')"
      by (cases "minioRepo_UploadFile d (fh_Filename fileHeader) ?rd (fh_Size fileHeader) ?ct
                   ''product-request-images'' (w_state w)")
    let ?ev = "Call_minioRepo_UploadFile (fh_Filename fileHeader) ?rd (fh_Size fileHeader) ?ct
                 ''product-request-images'' r"
    let ?w1 = "\<lparr>w_state = s', w_calls = w_calls w @ [?ev]\<rparr>"
    have dr: "drop i readers = ?rd # drop (Suc i) readers"
      using True by (simp add: Cons_nth_drop_Suc)
    show ?thesis
    proof (cases r)
      case (Inl e)
      with Cons.prems True up have "out = Inl (Returned e)" and "w_calls w' = w_calls w @ [?ev]"
        by (auto simp add: andThen_def index_at_def ret_def call_val_def)
      then show ?thesis using Inl
        by (intro exI [of _ "[?ev]"]) auto
    next
      case (Inr u)
      with Cons.prems True up have
        "upload_loop d files readers (Suc i) (acc @ [u]) ?w1 = (out, w')"
        by (simp add: andThen_def index_at_def ret_def call_val_def)
      from Cons.IH [OF this] obtain evs where
        calls: "w_calls w' = w_calls ?w1 @ evs"
        and nc: "\<forall>ev\<in>set evs. \<not> is_Create ev"
        and fl: "\<forall>err. (\<exists>ev\<in>set evs. is_failed_upload err ev) \<longrightarrow> out = Inl (Returned err)"
        and ok: "\<forall>infos. out = Inr infos \<longrightarrow>
         (\<exists>new. infos = (acc @ [u]) @ new \<and> length new = length files \<and>
            length files \<le> length readers - Suc i \<and>
            evs = map (\<lambda>(f, rd, u).
                    Call_minioRepo_UploadFile (fh_Filename f) rd (fh_Size f)
                      (Header_Get (fh_Header f) ''Content-Type'') ''product-request-images'' (Inr u))
                  (zip files (zip (drop (Suc i) readers) new)))"
        by blast
      have 1: "w_calls w' = w_calls w @ (?ev # evs)" using calls by simp
      have 2: "\<forall>ev\<in>set (?ev # evs). \<not> is_Create ev" using nc by simp
      have 3: "\<forall>err. (\<exists>ev\<in>set (?ev # evs). is_failed_upload err ev) \<longrightarrow> out = Inl (Returned err)"
        using fl Inr by simp
      have 4: "\<forall>infos. out = Inr infos \<longrightarrow>
         (\<exists>new. infos = acc @ new \<and> length new = length (fileHeader # files) \<and>
            length (fileHeader # files) \<le> length readers - i \<and>
            ?ev # evs = map (\<lambda>(f, rd, u).
                    Call_minioRepo_UploadFile (fh_Filename f) rd (fh_Size f)
                      (Header_Get (fh_Header f) ''Content-Type'') ''product-request-images'' (Inr u))
                  (zip (fileHeader # files) (zip (drop i readers) new)))"
      proof (intro allI impI)
        fix infos assume "out = Inr infos"
        with ok obtain new where new: "infos = (acc @ [u]) @ new" "length new = length files"
          "length files \<le> length readers - Suc i"
          "evs = map (\<lambda>(f, rd, u).
                    Call_minioRepo_UploadFile (fh_Filename f) rd (fh_Size f)
                      (Header_Get (fh_Header f) ''Content-Type'') ''product-request-images'' (Inr u))
                  (zip files (zip (drop (Suc i) readers) new))"
          by blast
        show "\<exists>new. infos = acc @ new \<and> length new = length (fileHeader # files) \<and>
            length (fileHeader # files) \<le> length readers - i \<and>
            ?ev # evs = map (\<lambda>(f, rd, u).
                    Call_minioRepo_UploadFile (fh_Filename f) rd (fh_Size f)
                      (Header_Get (fh_Header f) ''Content-Type'') ''product-request-images'' (Inr u))
                  (zip (fileHeader # files) (zip (drop i readers) new))"
          using new Inr True
          by (intro exI [of _ "u # new"]) (simp add: dr)
      qed
      from 1 2 3 4 show ?thesis by blast
    qed
  qed
qed

text \<open>
  Claim C6. Whatever a call of \<open>CreateProductRequest\<close> returns: when it returns the
  request, there is one upload result per file, the calls of the run are the uploads of
  the files in their order, the \<open>i\<close>-th file with the \<open>i\<close>-th reader, followed by one
  \<^verbatim>\<open>Create\<close> of the request whose image list is the list of \<^verbatim>\<open>bucket/key\<close> of the
  upload results in that order (the list the caller supplied is replaced); and when an
  upload of the run returned an error, that error is the result and no \<^verbatim>\<open>Create\<close> is
  among the calls.
\<close>

theorem create_uploads_then_persists:
  fixes d :: "'s service"
  assumes run: "CreateProductRequest d productRequest files readers w = (out, w')"
  shows "(\<forall>created. out = Inr created \<longrightarrow>
           (\<exists>infos. length infos = length files \<and> length files \<le> length readers \<and>
              calls_since w w' =
                map (\<lambda>(f, rd, u).
                      Call_minioRepo_UploadFile (fh_Filename f) rd (fh_Size f)
                        (Header_Get (fh_Header f) ''Content-Type'') ''product-request-images'' (Inr u))
                    (zip files (zip readers infos)) @
                [Call_repo_Create
                   (productRequest\<lparr>pr_Images := map (\<lambda>u. ui_Bucket u @ ''/'' @ ui_Key u) infos\<rparr>)
                   (None, created)])) \<and>
         (\<forall>err. (\<exists>ev\<in>set (calls_since w w'). is_failed_upload err ev) \<longrightarrow>
            out = Inl (Returned err) \<and> (\<forall>ev\<in>set (calls_since w w'). \<not> is_Create ev))"
proof -
  obtain o1 w1 where up: "upload_loop d files readers 0 [] w = (o1, w1)"
    by (cases "upload_loop d files readers 0 [] w")
  from upload_loop_trace [OF up] obtain evs where
    calls: "w_calls w1 = w_calls w @ evs"
    and nc: "\<forall>ev\<in>set evs. \<not> is_Create ev"
    and fl: "\<forall>err. (\<exists>ev\<in>set evs. is_failed_upload err ev) \<longrightarrow> o1 = Inl (Returned err)"
    and ok: "\<forall>infos. o1 = Inr infos \<longrightarrow>
         (\<exists>new. infos = [] @ new \<and> length new = length files \<and>
            length files \<le> length readers - 0 \<and>
            evs = map (\<lambda>(f, rd, u).
                    Call_minioRepo_UploadFile (fh_Filename f) rd (fh_Size f)
                      (Header_Get (fh_Header f) ''Content-Type'') ''product-request-images'' (Inr u))
                  (zip files (zip (drop 0 readers) new)))"
    by blast
  show ?thesis
  proof (cases o1)
    case (Inl f)
    with run up have out: "out = Inl f" and w': "w' = w1"
      by (simp_all add: CreateProductRequest_def andThen_def)
    have cs: "calls_since w w' = evs" using calls w' by (simp add: calls_since_def)
    show ?thesis unfolding cs using out Inl nc fl by auto
  next
    case (Inr infos)
    let ?p = "productRequest\<lparr>pr_Images := map (\<lambda>u. ui_Bucket u @ ''/'' @ ui_Key u) infos\<rparr>"
    obtain r s' where cr: "repo_Create d ?p (w_state w1) = (r, s')"
      by (cases "repo_Create d ?p (w_state w1)")
    from run up Inr cr have out: "out = (case fst r of Some e \<Rightarrow> Inl (Returned e) | None \<Rightarrow> Inr (snd r))"
      and w': "w_calls w' = w_calls w1 @ [Call_repo_Create ?p r]"
      by (auto simp add: CreateProductRequest_def andThen_def call_ptr_def ret_def Let_def
          uris_loop_map split: option.splits)
    have cs: "calls_since w w' = evs @ [Call_repo_Create ?p r]"
      using calls w' by (simp add: calls_since_def)
    from ok Inr have len: "length infos = length files" "length files \<le> length readers"
      and evs: "evs = map (\<lambda>(f, rd, u).
                    Call_minioRepo_UploadFile (fh_Filename f) rd (fh_Size f)
                      (Header_Get (fh_Header f) ''Content-Type'') ''product-request-images'' (Inr u))
                  (zip files (zip readers infos))"
      by auto
    have nofail: "\<not> (\<exists>ev\<in>set evs. is_failed_upload err ev)" for err
      using fl Inr by auto
    have first: "\<forall>created. out = Inr created \<longrightarrow>
           (\<exists>infos. length infos = length files \<and> length files \<le> length readers \<and>
              calls_since w w' =
                map (\<lambda>(f, rd, u).
                      Call_minioRepo_UploadFile (fh_Filename f) rd (fh_Size f)
                        (Header_Get (fh_Header f) ''Content-Type'') ''product-request-images'' (Inr u))
                    (zip files (zip readers infos)) @
                [Call_repo_Create
                   (productRequest\<lparr>pr_Images := map (\<lambda>u. ui_Bucket u @ ''/'' @ ui_Key u) infos\<rparr>)
                   (None, created)])"
    proof (intro allI impI)
      fix created assume c: "out = Inr created"
      with out have "r = (None, created)"
        by (cases r) (auto split: option.splits)
      with cs evs len show "\<exists>infos. length infos = length files \<and> length files \<le> length readers \<and>
              calls_since w w' =
                map (\<lambda>(f, rd, u).
                      Call_minioRepo_UploadFile (fh_Filename f) rd (fh_Size f)
                        (Header_Get (fh_Header f) ''Content-Type'') ''product-request-images'' (Inr u))
                    (zip files (zip readers infos)) @
                [Call_repo_Create
                   (productRequest\<lparr>pr_Images := map (\<lambda>u. ui_Bucket u @ ''/'' @ ui_Key u) infos\<rparr>)
                   (None, created)]"
        by (intro exI [of _ infos]) simp
    qed
    have second: "\<forall>err. (\<exists>ev\<in>set (calls_since w w'). is_failed_upload err ev) \<longrightarrow>
            out = Inl (Returned err) \<and> (\<forall>ev\<in>set (calls_since w w'). \<not> is_Create ev)"
      unfolding cs using nofail by auto
    from first second show ?thesis by blast
  qed
qed


theorem create_uploads_then_persists_witness:
  "pr_Images request7 = [''hewpao-s3/images/a.png''] \<and>
   fst (CreateProductRequest (mem_service cfg0) request7 [file_a, file_b] [''abc'', ''def'']
          (mem_of [] None))
     = Inr (request7\<lparr>pr_Images := [''hewpao-s3/product-request-images/a.png'',
                                     ''hewpao-s3/product-request-images/b.png'']\<rparr>) \<and>
   (\<exists>infos. length infos = length [file_a, file_b] \<and>
      calls_since (mem_of [] None)
        (snd (CreateProductRequest (mem_service cfg0) request7 [file_a, file_b] [''abc'', ''def'']
               (mem_of [] None))) =
        map (\<lambda>(f, rd, u).
              Call_minioRepo_UploadFile (fh_Filename f) rd (fh_Size f)
                (Header_Get (fh_Header f) ''Content-Type'') ''product-request-images'' (Inr u))
            (zip [file_a, file_b] (zip [''abc'', ''def''] infos)) @
        [Call_repo_Create
           (request7\<lparr>pr_Images := map (\<lambda>u. ui_Bucket u @ ''/'' @ ui_Key u) infos\<rparr>)
           (None, request7\<lparr>pr_Images := [''hewpao-s3/product-request-images/a.png'',
                                          ''hewpao-s3/product-request-images/b.png'']\<rparr>)]) \<and>
   fst (CreateProductRequest (mem_service cfg0) request7 [file_a, file_b] [''abc'', []]
          (mem_of [] None))
     = Inl (Returned (OtherError ''empty upload'')) \<and>
   filter is_Create
     (calls_since (mem_of [] None)
        (snd (CreateProductRequest (mem_service cfg0) request7 [file_a, file_b] [''abc'', []]
               (mem_of [] None)))) = []"
proof -
  let ?d = "mem_service cfg0"
  let ?w = "mem_of [] None"
  let ?fs = "[file_a, file_b]"
  let ?created = "request7\<lparr>pr_Images := [''hewpao-s3/product-request-images/a.png'',
                                           ''hewpao-s3/product-request-images/b.png'']\<rparr>"
  let ?ok = "CreateProductRequest ?d request7 ?fs [''abc'', ''def''] ?w"
  let ?bad = "CreateProductRequest ?d request7 ?fs [''abc'', []] ?w"
  note ev = CreateProductRequest_def andThen_def index_at_def ret_def call_val_def call_ptr_def
    mem_service_sel mem_UploadFile_def mem_Create_def mem_of_def file_a_def file_b_def
    Header_Get_def calls_since_def Let_def
  have given: "pr_Images request7 = [''hewpao-s3/images/a.png'']"
    by (simp add: request7_def)
  have run_ok: "?ok = (fst ?ok, snd ?ok)" and run_bad: "?bad = (fst ?bad, snd ?bad)"
    by simp_all
  have val: "fst ?ok = Inr ?created"
    by (simp add: ev)
  have failed: "\<exists>ev\<in>set (calls_since ?w (snd ?bad)). is_failed_upload (OtherError ''empty upload'') ev"
    by (simp add: ev)
  from create_uploads_then_persists [OF run_ok] val have
    "\<exists>infos. length infos = length ?fs \<and> length ?fs \<le> length [''abc'', ''def''] \<and>
        calls_since ?w (snd ?ok) =
          map (\<lambda>(f, rd, u).
                Call_minioRepo_UploadFile (fh_Filename f) rd (fh_Size f)
                  (Header_Get (fh_Header f) ''Content-Type'') ''product-request-images'' (Inr u))
              (zip ?fs (zip [''abc'', ''def''] infos)) @
          [Call_repo_Create
             (request7\<lparr>pr_Images := map (\<lambda>u. ui_Bucket u @ ''/'' @ ui_Key u) infos\<rparr>)
             (None, ?created)]"
    by blast
  then have uploads: "\<exists>infos. length infos = length ?fs \<and>
        calls_since ?w (snd ?ok) =
          map (\<lambda>(f, rd, u).
                Call_minioRepo_UploadFile (fh_Filename f) rd (fh_Size f)
                  (Header_Get (fh_Header f) ''Content-Type'') ''product-request-images'' (Inr u))
              (zip ?fs (zip [''abc'', ''def''] infos)) @
          [Call_repo_Create
             (request7\<lparr>pr_Images := map (\<lambda>u. ui_Bucket u @ ''/'' @ ui_Key u) infos\<rparr>)
             (None, ?created)]"
    by blast
  from create_uploads_then_persists [OF run_bad] failed have
    err: "fst ?bad = Inl (Returned (OtherError ''empty upload''))"
    and none: "\<forall>ev\<in>set (calls_since ?w (snd ?bad)). \<not> is_Create ev"
    by blast+
  from none have "filter is_Create (calls_since ?w (snd ?bad)) = []"
    by (simp add: filter_empty_conv)
  with given val uploads err show ?thesis by blast
qed

end
